theory Spec2Isabelle
  imports Complex_Main "HOL-Library.Word"
begin

section \<open>X32 stompbox: data model\<close>

text \<open>
  The embedding follows \<^verbatim>\<open>src/x32stompbox.cpp\<close>. Strings held through a
  \<^verbatim>\<open>char *\<close> are modelled by their characters (type \<open>string\<close>); the three
  global \<^verbatim>\<open>char\<close> arrays of the MIDI converter are modelled as the bytes the
  initialisers put in memory, because \<^verbatim>\<open>strcat\<close> reads them byte by byte up
  to the first NUL. A \<^verbatim>\<open>float\<close> or \<^verbatim>\<open>double\<close> value is modelled by the real
  number it denotes; the result of a floating point operation is the exact result rounded
  to the format (functions \<open>binary32\<close> and \<open>binary64\<close> below).
  \<^verbatim>\<open>millis()\<close> is an \<^verbatim>\<open>unsigned long\<close>, 32 bits on the ESP32.
\<close>

datatype level = LOW | HIGH

definition LED_PIN_ON :: level where
  "LED_PIN_ON = LOW"

definition LED_PIN_OFF :: level where
  "LED_PIN_OFF = HIGH"

definition action_NOTHING :: int where
  "action_NOTHING = -1"

definition action_PRESS :: int where
  "action_PRESS = 1"

definition action_LONG_PRESS :: int where
  "action_LONG_PRESS = 2"

definition LONG_PRESS_DURATION :: "32 word" where
  "LONG_PRESS_DURATION = 3000"

text \<open>
  Class \<^verbatim>\<open>OSCWidget\<close>. The member \<^verbatim>\<open>button\<close> belongs to the external
  Button library: what it reports at each poll is an input of the model
  (record \<open>sample\<close> below).
\<close>

record OSCWidget =
  friendlyDebugName :: string
  buttonPin :: "8 word"
  ledPin :: "8 word"
  actionTrigger :: int
  pressedMillis :: "32 word"
  wasPressed :: bool
  isOscToggle :: bool
  isReverseLed :: bool
  oscAddress :: string
  oscPayload_s :: string
  oscState :: int
  oscPayload_i :: int
  oscPayload_f :: real

text \<open>
  The constructor. \<^verbatim>\<open>pressedMillis\<close> is not initialised by the source; it is
  read only while \<^verbatim>\<open>wasPressed\<close> holds, that is after a press has stored it,
  and the model starts it at 0. The last argument is the \<^verbatim>\<open>float\<close> that is
  passed, a binary32 value.
\<close>

definition newOSCWidget ::
  "string \<Rightarrow> 8 word \<Rightarrow> 8 word \<Rightarrow> int \<Rightarrow> bool \<Rightarrow> bool \<Rightarrow> string \<Rightarrow> string \<Rightarrow> int \<Rightarrow> real \<Rightarrow> OSCWidget" where
  "newOSCWidget theFriendlyName theButtonPin theLedPin theTrigger theOscType theLedResponse
       theOscAddress theOscPayload_s theOscIndex theOscPayload_f =
     \<lparr> friendlyDebugName = theFriendlyName,
       buttonPin = theButtonPin,
       ledPin = theLedPin,
       actionTrigger = theTrigger,
       pressedMillis = 0,
       wasPressed = False,
       isOscToggle = theOscType,
       isReverseLed = theLedResponse,
       oscAddress = theOscAddress,
       oscPayload_s = theOscPayload_s,
       oscState = 0,
       oscPayload_i = theOscIndex,
       oscPayload_f = theOscPayload_f \<rparr>"

text \<open>The configured widgets (the two trailing constructor arguments default to -1).\<close>

definition myWidgets :: "OSCWidget list" where
  "myWidgets =
    [ newOSCWidget ''Bttn A__'' 12 13 action_LONG_PRESS False False ''/load'' ''snippet'' 99 (-1),
      newOSCWidget ''Button A'' 12 13 action_PRESS False False ''/load'' ''snippet'' 13 (-1),
      newOSCWidget ''Button B'' 14 15 action_PRESS False False ''/load'' ''snippet'' 15 (-1),
      newOSCWidget ''Button C'' 27 2 action_PRESS False False ''/load'' ''snippet'' 12 (-1),
      newOSCWidget ''Button D'' 26 0 action_PRESS False False ''/load'' ''snippet'' 11 (-1),
      newOSCWidget ''Button E'' 25 4 action_PRESS True True ''/dca/5/on'' '''' (-1) (-1),
      newOSCWidget ''Button F'' 33 5 action_PRESS True False ''/config/mute/6'' '''' (-1) (-1) ]"

text \<open>The fader example of the source's configuration comments.\<close>

definition exampleFader :: OSCWidget where
  "exampleFader =
     newOSCWidget ''Example'' 35 23 action_NOTHING False False ''/ch/02/mix/09/level'' '''' (-1) (3/4)"

text \<open>
  The semantics kind of a widget, as the branches of the dispatch code decide it: the
  toggle flag first, then the sign of the float payload.
\<close>

datatype kind = Toggle | Fader | Fire

definition widgetKind :: "OSCWidget \<Rightarrow> kind" where
  "widgetKind w = (if isOscToggle w then Toggle else if oscPayload_f w \<ge> 0 then Fader else Fire)"

text \<open>
  Arguments of an OSC message. \<open>OOther\<close> stands for every type tag other than
  integer, float and string.
\<close>

datatype oscArg = OInt int | OFloat real | OString string | OOther

datatype task = UDPLoop | PokeOSCLoop

text \<open>
  What the tasks do to the outside, in program order: a UDP packet with an OSC message, a
  MIDI SysEx, a pin write, the creation of a \<^verbatim>\<open>taskLedFlash\<close> task, a
  \<^verbatim>\<open>vTaskDelay\<close> (milliseconds), a write to the global \<^verbatim>\<open>do_Refresh\<close>,
  \<^verbatim>\<open>vTaskResume\<close> and \<^verbatim>\<open>vTaskSuspend\<close>, and text on the debug console
  (the literal texts only; the numbers printed beside them, backspaces and line ends are
  left out).
\<close>

datatype event =
    SendOSC string "oscArg list"
  | SendSysEx string
  | DigitalWrite "8 word" level
  | StartFlash "8 word"
  | Delay nat
  | SetRefresh bool
  | TaskResume task
  | TaskSuspend task
  | SerialPrint string

section \<open>Command codec: the MIDI SysEx text\<close>

definition midiHeader :: string where
  "midiHeader = [CHR 0xF0, CHR 0x00, CHR 0x20, CHR 0x32, CHR 0x32]"

definition midiSpacer :: string where
  "midiSpacer = [CHR 0x20]"

definition midiFooter :: string where
  "midiFooter = [CHR 0xF7]"

definition stringOFF :: string where
  "stringOFF = ''OFF''"

definition stringON :: string where
  "stringON = ''ON''"

text \<open>The C string that starts at the first byte of a piece of memory.\<close>

definition c_str :: "string \<Rightarrow> string" where
  "c_str mem = takeWhile (\<lambda>c. c \<noteq> CHR 0x00) mem"

text \<open>
  \<^verbatim>\<open>strcat\<close> into a buffer of \<open>cap\<close> bytes that holds the C string
  \<open>dst\<close>: the source is copied up to its first NUL and a NUL is written after it.
  A write past the buffer is undefined in C; the model returns \<open>None\<close> there.
\<close>

definition strcat :: "nat \<Rightarrow> string \<Rightarrow> string \<Rightarrow> string option" where
  "strcat cap dst src =
     (if length dst + length (c_str src) + 1 \<le> cap then Some (dst @ c_str src) else None)"

text \<open>
  \<^verbatim>\<open>midiBuildCommand\<close> fills the global \<^verbatim>\<open>bigMidiCommand[64]\<close>; the result is
  the C string left in it. \<^verbatim>\<open>midiSpacer\<close> and \<^verbatim>\<open>midiFooter\<close> are one-byte
  arrays with no NUL of their own, so \<^verbatim>\<open>strcat\<close> reads on into the memory behind
  them: \<open>afterSpacer\<close> and \<open>afterFooter\<close> are those bytes, which the source
  does not determine.
\<close>

definition midiBuildCommand :: "string \<Rightarrow> string \<Rightarrow> string \<Rightarrow> string \<Rightarrow> string option" where
  "midiBuildCommand afterSpacer afterFooter oscCommand oscArgument =
     Option.bind (strcat 64 [] midiHeader) (\<lambda>b1.
     Option.bind (strcat 64 b1 oscCommand) (\<lambda>b2.
     Option.bind (strcat 64 b2 (midiSpacer @ afterSpacer)) (\<lambda>b3.
     Option.bind (strcat 64 b3 oscArgument) (\<lambda>b4.
     strcat 64 b4 (midiFooter @ afterFooter)))))"

text \<open>\<^verbatim>\<open>itoa(n, buf, 10)\<close>: the decimal text of an \<^verbatim>\<open>int\<close>.\<close>

fun decimal :: "nat \<Rightarrow> string" where
  "decimal n =
     (if n < 10 then [''0123456789'' ! n]
      else decimal (n div 10) @ [''0123456789'' ! (n mod 10)])"

declare decimal.simps [simp del]

definition itoa :: "int \<Rightarrow> string" where
  "itoa n = (if n < 0 then CHR ''-'' # decimal (nat (- n)) else decimal (nat n))"

text \<open>The cast \<^verbatim>\<open>(int)\<close> of a floating point value truncates towards zero.\<close>

definition int_cast :: "real \<Rightarrow> int" where
  "int_cast x = (if x \<ge> 0 then \<lfloor>x\<rfloor> else \<lceil>x\<rceil>)"

subsection \<open>Floating point rounding\<close>

text \<open>Rounding to the nearest integer, a tie going to the even one.\<close>

definition roundHalfEven :: "real \<Rightarrow> int" where
  "roundHalfEven x =
     (let n = \<lfloor>x\<rfloor>; r = x - of_int n
      in if r < 1/2 then n
         else if 1/2 < r then n + 1
         else if even n then n else n + 1)"

text \<open>
  The binary exponent used for a magnitude \<open>x\<close>: the greatest \<open>e\<close> from
  \<open>e0\<close> downwards with \<open>2 powi e \<le> x\<close>, and \<open>e0 - n\<close> (the exponent of the
  subnormal numbers) when there is none in the \<open>n\<close> steps.
\<close>

fun floatExponent :: "nat \<Rightarrow> int \<Rightarrow> real \<Rightarrow> int" where
  "floatExponent 0 e x = e"
| "floatExponent (Suc n) e x = (if 2 powi e \<le> x then e else floatExponent n (e - 1) x)"

text \<open>
  Rounding a real number to the nearest number of a binary floating point format with
  \<open>p\<close> significant bits and exponents from \<open>emin\<close> to \<open>emax\<close>, ties to
  even (the IEEE 754 default): the number is rounded to a whole multiple of the spacing of
  the format at its magnitude. Overflow to infinity is not modelled: a number that large
  is far outside what \<^verbatim>\<open>stringNumber[4]\<close> can hold, see \<open>composeMessage\<close>.
\<close>

definition roundToFloat :: "nat \<Rightarrow> int \<Rightarrow> int \<Rightarrow> real \<Rightarrow> real" where
  "roundToFloat p emin emax x =
     (let e = floatExponent (nat (emax - emin)) emax \<bar>x\<bar>;
          q = 2 powi (e - int p + 1)
      in of_int (roundHalfEven (x / q)) * q)"

text \<open>\<^verbatim>\<open>float\<close> is IEEE 754 binary32 and \<^verbatim>\<open>double\<close> is binary64 on the ESP32.\<close>

definition binary32 :: "real \<Rightarrow> real" where
  "binary32 x = roundToFloat 24 (-126) 127 x"

definition binary64 :: "real \<Rightarrow> real" where
  "binary64 x = roundToFloat 53 (-1022) 1023 x"

section \<open>Dispatch engine\<close>

text \<open>
  Undefined behaviour of the C code that the model makes explicit: the decimal text
  written by \<^verbatim>\<open>itoa\<close> does not fit \<^verbatim>\<open>stringNumber[4]\<close>, or the MIDI text
  does not fit \<^verbatim>\<open>bigMidiCommand[64]\<close>.
\<close>

datatype fault = StringNumberOverrun | MidiCommandOverrun

text \<open>
  Composing the OSC message of a widget (the branch on the widget's kind in
  \<^verbatim>\<open>taskButtonsLoop\<close>): the updated widget and the arguments added to the message.
  In the fader branch \<^verbatim>\<open>theWidget.oscPayload_f*127\<close> is a \<^verbatim>\<open>float\<close> product
  (127 is converted to \<^verbatim>\<open>float\<close> exactly) and \<^verbatim>\<open>+ 0.5\<close> is a
  \<^verbatim>\<open>double\<close> sum. A value beyond the range of \<^verbatim>\<open>int\<close> makes the cast
  undefined; its text would have ten digits or more, so the model reports the overrun of
  \<^verbatim>\<open>stringNumber\<close> there as well.
\<close>

definition composeMessage :: "OSCWidget \<Rightarrow> fault + (OSCWidget \<times> oscArg list)" where
  "composeMessage w =
     (if isOscToggle w then
        (let w1 = w\<lparr>oscState := (if oscState w < 1 then 1 else 0)\<rparr>;
             w2 = w1\<lparr>oscPayload_s := (if oscState w1 < 1 then stringOFF else stringON)\<rparr>
         in Inr (w2, [OInt (oscState w2)]))
      else if oscPayload_f w \<ge> 0 then
        (let stringNumber = itoa (int_cast (binary64 (binary32 (oscPayload_f w * 127) + 1/2)))
         in if length stringNumber + 1 \<le> 4
            then Inr (w\<lparr>oscPayload_s := stringNumber\<rparr>, [OFloat (oscPayload_f w)])
            else Inl StringNumberOverrun)
      else
        Inr (w, (if oscPayload_s w \<noteq> [] then [OString (oscPayload_s w)] else []) @
                (if oscPayload_i w \<ge> 0 then [OInt (oscPayload_i w)] else [])))"

text \<open>
  The body of \<^verbatim>\<open>if (action == theWidget.actionTrigger && ...)\<close>: the message, the
  second message with the address only, the SysEx, the local flash, the debug print.
\<close>

definition dispatch :: "bool \<Rightarrow> string \<Rightarrow> string \<Rightarrow> OSCWidget \<Rightarrow> fault + (OSCWidget \<times> event list)" where
  "dispatch do_xRemote afterSpacer afterFooter w =
     (case composeMessage w of
        Inl f \<Rightarrow> Inl f
      | Inr (w', args) \<Rightarrow>
          (case midiBuildCommand afterSpacer afterFooter (oscAddress w') (oscPayload_s w') of
             None \<Rightarrow> Inl MidiCommandOverrun
           | Some bigMidiCommand \<Rightarrow>
               Inr (w',
                 [SendOSC (oscAddress w') args] @
                 (if do_xRemote \<and> (isOscToggle w' \<or> oscPayload_f w' \<ge> 0)
                  then [SendOSC (oscAddress w') []] else []) @
                 [SendSysEx bigMidiCommand] @
                 (if \<not> do_xRemote then [StartFlash (ledPin w')] else []) @
                 [SerialPrint (friendlyDebugName w')])))"

section \<open>Input state machine\<close>

text \<open>
  One poll of a widget's button: the value of \<^verbatim>\<open>millis()\<close>, what
  \<^verbatim>\<open>button.toggled()\<close> returns and, when it returns true, whether
  \<^verbatim>\<open>button.read()\<close> is \<^verbatim>\<open>Button::PRESSED\<close>.
\<close>

record sample =
  millis :: "32 word"
  toggled :: bool
  readPressed :: bool

text \<open>
  "How was the button pressed?": the widget with its press timing updated, and the value
  left in the variable \<^verbatim>\<open>action\<close>.
\<close>

definition pollButton :: "sample \<Rightarrow> OSCWidget \<Rightarrow> OSCWidget \<times> int" where
  "pollButton smp w =
     (if toggled smp then
        (if readPressed smp
         then (w\<lparr>pressedMillis := millis smp, wasPressed := True\<rparr>, action_PRESS)
         else (w\<lparr>wasPressed := False\<rparr>, action_NOTHING))
      else if wasPressed w \<and> millis smp - pressedMillis w > LONG_PRESS_DURATION
        then (w\<lparr>wasPressed := False\<rparr>, action_LONG_PRESS)
      else (w, action_NOTHING))"

text \<open>The test that guards the dispatch: the action is the widget's trigger.\<close>

definition emitsAction :: "sample \<Rightarrow> OSCWidget \<Rightarrow> bool" where
  "emitsAction smp w =
     (case pollButton smp w of
        (w1, action) \<Rightarrow> action = actionTrigger w1 \<and> action \<noteq> action_NOTHING)"

text \<open>The body of the loop over \<^verbatim>\<open>myWidgets\<close> in \<^verbatim>\<open>taskButtonsLoop\<close>, for one widget.\<close>

definition widgetTick ::
  "bool \<Rightarrow> string \<Rightarrow> string \<Rightarrow> sample \<Rightarrow> OSCWidget \<Rightarrow> fault + (OSCWidget \<times> event list)" where
  "widgetTick do_xRemote afterSpacer afterFooter smp w =
     (if emitsAction smp w
      then dispatch do_xRemote afterSpacer afterFooter (fst (pollButton smp w))
      else Inr (fst (pollButton smp w), []))"

text \<open>The same widget polled again and again, round after round of the endless loop.\<close>

fun runTicks ::
  "bool \<Rightarrow> string \<Rightarrow> string \<Rightarrow> sample list \<Rightarrow> OSCWidget \<Rightarrow> fault + (OSCWidget \<times> event list)" where
  "runTicks do_xRemote afterSpacer afterFooter [] w = Inr (w, [])"
| "runTicks do_xRemote afterSpacer afterFooter (smp # smps) w =
     (case widgetTick do_xRemote afterSpacer afterFooter smp w of
        Inl f \<Rightarrow> Inl f
      | Inr (w1, evs1) \<Rightarrow>
          (case runTicks do_xRemote afterSpacer afterFooter smps w1 of
             Inl f \<Rightarrow> Inl f
           | Inr (w2, evs2) \<Rightarrow> Inr (w2, evs1 @ evs2)))"

text \<open>
  One physical hold as the loop sees it: the poll that finds the press edge at \<open>t0\<close>,
  the polls at the times \<open>ts\<close> while the button stays down (no toggle), and the poll
  that finds the release edge at \<open>tr\<close>.
\<close>

definition pressEdge :: "32 word \<Rightarrow> sample" where
  "pressEdge t = \<lparr>millis = t, toggled = True, readPressed = True\<rparr>"

definition heldPoll :: "32 word \<Rightarrow> sample" where
  "heldPoll t = \<lparr>millis = t, toggled = False, readPressed = True\<rparr>"

definition releaseEdge :: "32 word \<Rightarrow> sample" where
  "releaseEdge t = \<lparr>millis = t, toggled = True, readPressed = False\<rparr>"

text \<open>Every dispatch sends exactly one SysEx, so the SysEx events count the dispatches.\<close>

fun isSysEx :: "event \<Rightarrow> bool" where
  "isSysEx (SendSysEx _) = True"
| "isSysEx _ = False"

fun isOSC :: "event \<Rightarrow> bool" where
  "isOSC (SendOSC _ _) = True"
| "isOSC _ = False"

definition dispatchCount :: "event list \<Rightarrow> nat" where
  "dispatchCount evs = length (filter isSysEx evs)"

section \<open>Mode and lifecycle\<close>

text \<open>
  The globals \<^verbatim>\<open>do_xRemote\<close> and \<^verbatim>\<open>do_Refresh\<close>, and whether the two
  tasks with a handle are suspended.
\<close>

record globals =
  do_xRemote :: bool
  do_Refresh :: bool
  udpLoopSuspended :: bool
  pokeLoopSuspended :: bool

text \<open>
  "Poll the service button" at the head of \<^verbatim>\<open>taskButtonsLoop\<close>:
  \<open>modeToggled\<close> is \<^verbatim>\<open>modeButton.toggled()\<close> and \<open>modeReleased\<close> is
  \<^verbatim>\<open>modeButton.read() == Button::RELEASED\<close>.
\<close>

definition pollModeButton :: "bool \<Rightarrow> bool \<Rightarrow> globals \<Rightarrow> globals \<times> event list" where
  "pollModeButton modeToggled modeReleased g =
     (if modeToggled then
        (if modeReleased
         then (g\<lparr>do_xRemote := True, do_Refresh := True, udpLoopSuspended := False\<rparr>,
               [SetRefresh True, TaskResume UDPLoop, SerialPrint ''do_xRemote: ''])
         else (g\<lparr>do_xRemote := False\<rparr>, [SerialPrint ''do_xRemote: '']))
      else (g, []))"

text \<open>\<^verbatim>\<open>WiFiGotIP\<close> and \<^verbatim>\<open>WiFiStationDisconnected\<close>.\<close>

definition WiFiGotIP :: "globals \<Rightarrow> globals \<times> event list" where
  "WiFiGotIP g =
     (g\<lparr>udpLoopSuspended := False, pokeLoopSuspended := False\<rparr>,
      [SerialPrint ''Obtained local IP address: '', TaskResume UDPLoop, TaskResume PokeOSCLoop])"

definition WiFiStationDisconnected :: "globals \<Rightarrow> globals \<times> event list" where
  "WiFiStationDisconnected g =
     (g\<lparr>udpLoopSuspended := True\<rparr>,
      [TaskSuspend UDPLoop, SerialPrint ''WiFi disconnected. Reason: ''])"

section \<open>Synchronization engine\<close>

text \<open>
  One round of the endless loop of \<^verbatim>\<open>taskPokeOSCLoop\<close>. \<open>wifiConnected\<close> is
  \<^verbatim>\<open>WiFi.status() == WL_CONNECTED\<close>; \<open>doneLedOff\<close> is the task's local
  variable.
\<close>

definition pokeRound ::
  "bool \<Rightarrow> OSCWidget list \<Rightarrow> globals \<times> bool \<Rightarrow> (globals \<times> bool) \<times> event list" where
  "pokeRound wifiConnected ws st =
     (case st of (g, doneLedOff) \<Rightarrow>
        if do_xRemote g \<and> wifiConnected then
          ((g\<lparr>do_Refresh := False\<rparr>, False),
           [SerialPrint ''/xremote'', SendOSC ''/xremote'' []] @
           (if do_Refresh g
            then [SetRefresh False, Delay 20] @
                 map (\<lambda>w. SendOSC (oscAddress w) []) (filter isOscToggle ws)
            else []) @
           [Delay 9000, Delay 10])
        else if \<not> doneLedOff then
          ((g, True),
           map (\<lambda>w. DigitalWrite (ledPin w) LED_PIN_OFF) ws @
           [SerialPrint ''/-------'', Delay 10])
        else ((g, doneLedOff), [Delay 10]))"

text \<open>
  A parsed inbound OSC message (class \<^verbatim>\<open>OSCMessage\<close> of the external OSC
  library): \<^verbatim>\<open>hasError()\<close>, the address, the arguments.
\<close>

record OSCMessage =
  hasError :: bool
  address :: string
  arguments :: "oscArg list"

definition isInt :: "nat \<Rightarrow> OSCMessage \<Rightarrow> bool" where
  "isInt n msg =
     (n < length (arguments msg) \<and> (case arguments msg ! n of OInt _ \<Rightarrow> True | _ \<Rightarrow> False))"

definition isFloat :: "nat \<Rightarrow> OSCMessage \<Rightarrow> bool" where
  "isFloat n msg =
     (n < length (arguments msg) \<and> (case arguments msg ! n of OFloat _ \<Rightarrow> True | _ \<Rightarrow> False))"

definition isString :: "nat \<Rightarrow> OSCMessage \<Rightarrow> bool" where
  "isString n msg =
     (n < length (arguments msg) \<and> (case arguments msg ! n of OString _ \<Rightarrow> True | _ \<Rightarrow> False))"

text \<open>\<^verbatim>\<open>getInt\<close> is called only under \<^verbatim>\<open>isInt\<close>.\<close>

definition getInt :: "nat \<Rightarrow> OSCMessage \<Rightarrow> int" where
  "getInt n msg =
     (if n < length (arguments msg) then (case arguments msg ! n of OInt i \<Rightarrow> i | _ \<Rightarrow> 0) else 0)"

text \<open>
  The reaction of \<^verbatim>\<open>taskUDPLoop\<close> to a message, for one widget: the widget after
  it, what is done, and whether \<^verbatim>\<open>matched\<close> is incremented. \<open>fullMatch\<close>
  is \<^verbatim>\<open>msg.fullMatch\<close> of the external OSC library, applied to the address of
  the message and the address of the widget.
\<close>

definition udpWidget ::
  "(string \<Rightarrow> string \<Rightarrow> bool) \<Rightarrow> OSCMessage \<Rightarrow> OSCWidget \<Rightarrow> OSCWidget \<times> event list \<times> nat" where
  "udpWidget fullMatch msg w =
     (if fullMatch (address msg) (oscAddress w) then
        (if isInt 0 msg \<and> isOscToggle w then
           (let w1 = w\<lparr>oscState := getInt 0 msg\<rparr> in
            (w1,
             [SerialPrint ''MATCHES '', SerialPrint (friendlyDebugName w1),
              (if isReverseLed w1
               then DigitalWrite (ledPin w1) (if oscState w1 > 0 then LED_PIN_OFF else LED_PIN_ON)
               else DigitalWrite (ledPin w1) (if oscState w1 > 0 then LED_PIN_ON else LED_PIN_OFF))],
             1))
         else if isFloat 0 msg then
           (w, [SerialPrint ''MATCHES '', SerialPrint (friendlyDebugName w),
                SerialPrint '' FLOAT: '', StartFlash (ledPin w)], 1)
         else if isString 0 msg then
           (w, [SerialPrint ''MATCHES '', SerialPrint (friendlyDebugName w),
                SerialPrint ('' STRING: '' @ [CHR 0x27])] @
               (if isInt 1 msg then [SerialPrint (CHR 0x27 # '' INDEX: '')] else []) @
               [StartFlash (ledPin w)], 1)
         else (w, [SerialPrint ''MATCHES '', SerialPrint (friendlyDebugName w)], 1))
      else (w, [], 0))"

text \<open>The loop over the widgets: the widgets after it, what was done, and \<^verbatim>\<open>matched\<close>.\<close>

fun udpWidgets ::
  "(string \<Rightarrow> string \<Rightarrow> bool) \<Rightarrow> OSCMessage \<Rightarrow> OSCWidget list \<Rightarrow> OSCWidget list \<times> event list \<times> nat" where
  "udpWidgets fullMatch msg [] = ([], [], 0)"
| "udpWidgets fullMatch msg (w # ws) =
     (case udpWidget fullMatch msg w of
        (w', evs, m) \<Rightarrow>
          (case udpWidgets fullMatch msg ws of
             (ws', evs', m') \<Rightarrow> (w' # ws', evs @ evs', m + m')))"

text \<open>What \<^verbatim>\<open>taskUDPLoop\<close> does with a received packet once it is read into \<open>msg\<close>.\<close>

definition udpMessage ::
  "(string \<Rightarrow> string \<Rightarrow> bool) \<Rightarrow> OSCMessage \<Rightarrow> OSCWidget list \<Rightarrow> OSCWidget list \<times> event list" where
  "udpMessage fullMatch msg ws =
     (if \<not> hasError msg then
        (case udpWidgets fullMatch msg ws of
           (ws', evs, matched) \<Rightarrow>
             (ws', evs @ (if matched = 0 then [SerialPrint ''NO MATCH''] else [])))
      else (ws, [SerialPrint ''ERROR: '']))"

text \<open>
  One round of the endless loop of \<^verbatim>\<open>taskUDPLoop\<close>: \<open>packet\<close> is the
  message read when \<^verbatim>\<open>Udp.parsePacket()\<close> reports a size above 0.
\<close>

definition udpRound ::
  "(string \<Rightarrow> string \<Rightarrow> bool) \<Rightarrow> bool \<Rightarrow> OSCMessage option \<Rightarrow> globals \<times> OSCWidget list
     \<Rightarrow> (globals \<times> OSCWidget list) \<times> event list" where
  "udpRound fullMatch wifiConnected packet st =
     (case st of (g, ws) \<Rightarrow>
        if do_xRemote g \<and> wifiConnected then
          (case packet of
             None \<Rightarrow> ((g, ws), [Delay 10])
           | Some msg \<Rightarrow>
               (case udpMessage fullMatch msg ws of
                  (ws', evs) \<Rightarrow> ((g, ws'), evs @ [Delay 10])))
        else
          ((g\<lparr>udpLoopSuspended := True\<rparr>, ws),
           [SerialPrint ''taskUDPLoop suspending itself.'', TaskSuspend UDPLoop, Delay 10]))"

section \<open>The specification's words, and concrete inputs\<close>

text \<open>
  The serial frame as the specification describes it: the fixed preamble, the address
  bytes, one separator byte, the payload bytes and the terminator byte.
\<close>

definition specFrame :: "string \<Rightarrow> string \<Rightarrow> string" where
  "specFrame oscCommand oscArgument =
     midiHeader @ oscCommand @ midiSpacer @ oscArgument @ midiFooter"

text \<open>
  The specification's pairing of argument types with widget kinds: an integer is Toggle
  feedback, a float is Fader feedback, a string is Fire feedback.
\<close>

fun argFitsKind :: "oscArg \<Rightarrow> kind \<Rightarrow> bool" where
  "argFitsKind (OInt _) k = (k = Toggle)"
| "argFitsKind (OFloat _) k = (k = Fader)"
| "argFitsKind (OString _) k = (k = Fire)"
| "argFitsKind OOther k = False"

text \<open>
  The text a decimal numeral stands for: every character is a digit, and the digits read
  from the left give the number.
\<close>

definition isDigit :: "char \<Rightarrow> bool" where
  "isDigit c = (48 \<le> (of_char c :: nat) \<and> (of_char c :: nat) \<le> 57)"

definition decimalValue :: "string \<Rightarrow> nat" where
  "decimalValue s = foldl (\<lambda>a c. 10 * a + ((of_char c :: nat) - 48)) 0 s"

text \<open>
  The caller-side bound of the specification, on the inputs of a dispatch: the MIDI text
  with its closing NUL fits \<^verbatim>\<open>bigMidiCommand[64]\<close> (one byte of preamble, the
  address, the separator and the terminator with whatever \<^verbatim>\<open>strcat\<close> reads behind
  them, and the payload text, which has at most three characters for a Toggle or a Fader),
  and a fader value is at most 1, so that its text fits \<^verbatim>\<open>stringNumber[4]\<close>.
\<close>

definition dispatchFits :: "string \<Rightarrow> string \<Rightarrow> OSCWidget \<Rightarrow> bool" where
  "dispatchFits afterSpacer afterFooter w =
     (length (c_str (oscAddress w)) + length (c_str afterSpacer) + length (c_str afterFooter)
        + (if widgetKind w = Fire then length (c_str (oscPayload_s w)) else 3) + 4 \<le> 64
      \<and> (if widgetKind w = Fader then oscPayload_f w \<le> 1 else True))"

text \<open>
  The number of polls, among those given, at which the widget's Action is emitted. The
  dispatch between two polls changes \<^verbatim>\<open>oscState\<close> and \<^verbatim>\<open>oscPayload_s\<close>
  only, which the press timing does not read.
\<close>

fun emittedActions :: "sample list \<Rightarrow> OSCWidget \<Rightarrow> nat" where
  "emittedActions [] w = 0"
| "emittedActions (smp # smps) w =
     (if emitsAction smp w then 1 else 0) + emittedActions smps (fst (pollButton smp w))"

text \<open>
  The binary32 value 0x3F020408, that is 8520712 / 2^24 (about 0.5079), and a fader set
  to it.
\<close>

definition float_3F020408 :: real where
  "float_3F020408 = 8520712 / 16777216"

definition faderAt :: "real \<Rightarrow> OSCWidget" where
  "faderAt v =
     newOSCWidget ''Example'' 35 23 action_PRESS False False ''/ch/02/mix/09/level'' '''' (-1) v"

text \<open>Three of the configured widgets, by name.\<close>

definition bttnA_long :: OSCWidget where
  "bttnA_long = myWidgets ! 0"

definition buttonA :: OSCWidget where
  "buttonA = myWidgets ! 1"

definition buttonE :: OSCWidget where
  "buttonE = myWidgets ! 5"

text \<open>The globals in one-way mode with the link up, as the mode switch finds them.\<close>

definition oneWayLinked :: globals where
  "oneWayLinked =
     \<lparr>do_xRemote = False, do_Refresh = False, udpLoopSuspended = True, pokeLoopSuspended = False\<rparr>"

section \<open>Shared lemmas\<close>

lemma c_str_no_NUL: "CHR 0x00 \<notin> set (c_str mem)"
  by (auto simp: c_str_def dest: set_takeWhileD)

lemma strcat_no_NUL:
  "strcat cap dst src = Some r \<Longrightarrow> CHR 0x00 \<notin> set dst \<Longrightarrow> CHR 0x00 \<notin> set r"
  using c_str_no_NUL [of src] by (auto simp: strcat_def split: if_splits)

lemma midiBuildCommand_no_NUL:
  assumes "midiBuildCommand afterSpacer afterFooter oscCommand oscArgument = Some r"
  shows "CHR 0x00 \<notin> set r"
proof -
  from assms obtain b1 b2 b3 b4 where
    s1: "strcat 64 [] midiHeader = Some b1" and
    s2: "strcat 64 b1 oscCommand = Some b2" and
    s3: "strcat 64 b2 (midiSpacer @ afterSpacer) = Some b3" and
    s4: "strcat 64 b3 oscArgument = Some b4" and
    s5: "strcat 64 b4 (midiFooter @ afterFooter) = Some r"
    by (auto simp: midiBuildCommand_def split: Option.bind_splits)
  have "CHR 0x00 \<notin> set b1" using strcat_no_NUL [OF s1] by simp
  then have "CHR 0x00 \<notin> set b2" by (rule strcat_no_NUL [OF s2])
  then have "CHR 0x00 \<notin> set b3" by (rule strcat_no_NUL [OF s3])
  then have "CHR 0x00 \<notin> set b4" by (rule strcat_no_NUL [OF s4])
  then show ?thesis by (rule strcat_no_NUL [OF s5])
qed

text \<open>What a dispatch that returns is made of.\<close>

lemma dispatchE:
  assumes "dispatch xr aS aF w = Inr (w', evs)"
  obtains args frame where
    "composeMessage w = Inr (w', args)"
    "midiBuildCommand aS aF (oscAddress w') (oscPayload_s w') = Some frame"
    "evs = [SendOSC (oscAddress w') args] @
           (if xr \<and> (isOscToggle w' \<or> oscPayload_f w' \<ge> 0) then [SendOSC (oscAddress w') []] else []) @
           [SendSysEx frame] @
           (if \<not> xr then [StartFlash (ledPin w')] else []) @
           [SerialPrint (friendlyDebugName w')]"
  using assms
  by (auto simp: dispatch_def split: sum.splits option.splits prod.splits)

text \<open>Composing the message changes the toggle state and the payload text only.\<close>

lemma composeMessage_keeps:
  assumes "composeMessage w = Inr (w', args)"
  shows "oscAddress w' = oscAddress w \<and> isOscToggle w' = isOscToggle w
       \<and> oscPayload_f w' = oscPayload_f w \<and> ledPin w' = ledPin w
       \<and> friendlyDebugName w' = friendlyDebugName w
       \<and> wasPressed w' = wasPressed w \<and> pressedMillis w' = pressedMillis w
       \<and> actionTrigger w' = actionTrigger w"
  using assms by (auto simp: composeMessage_def Let_def split: if_splits)

lemma dispatch_keeps_timing:
  assumes "dispatch xr aS aF w = Inr (w', evs)"
  shows "wasPressed w' = wasPressed w \<and> pressedMillis w' = pressedMillis w
       \<and> actionTrigger w' = actionTrigger w \<and> dispatchCount evs = 1"
proof -
  from assms obtain args frame where
    c: "composeMessage w = Inr (w', args)" and
    e: "evs = [SendOSC (oscAddress w') args] @
           (if xr \<and> (isOscToggle w' \<or> oscPayload_f w' \<ge> 0) then [SendOSC (oscAddress w') []] else []) @
           [SendSysEx frame] @
           (if \<not> xr then [StartFlash (ledPin w')] else []) @
           [SerialPrint (friendlyDebugName w')]"
    by (rule dispatchE)
  have "dispatchCount evs = 1" unfolding e dispatchCount_def by simp
  with composeMessage_keeps [OF c] show ?thesis by simp
qed

lemma bttnA_long_eq:
  "bttnA_long = newOSCWidget ''Bttn A__'' 12 13 action_LONG_PRESS False False ''/load'' ''snippet'' 99 (-1)"
  by (simp add: bttnA_long_def myWidgets_def)

lemma buttonA_eq:
  "buttonA = newOSCWidget ''Button A'' 12 13 action_PRESS False False ''/load'' ''snippet'' 13 (-1)"
  by (simp add: buttonA_def myWidgets_def)

lemma buttonE_eq:
  "buttonE = newOSCWidget ''Button E'' 25 4 action_PRESS True True ''/dca/5/on'' '''' (-1) (-1)"
  by (simp add: buttonE_def myWidgets_def)

lemma dispatch_buttonE:
  "dispatch True [CHR 0x00] [CHR 0x00] buttonE =
     Inr (buttonE\<lparr>oscPayload_s := ''ON'', oscState := 1\<rparr>,
          [SendOSC ''/dca/5/on'' [OInt 1], SendOSC ''/dca/5/on'' [],
           SendSysEx (CHR 0xF0 # ''/dca/5/on ON'' @ [CHR 0xF7]), SerialPrint ''Button E''])"
  by (simp add: buttonE_eq newOSCWidget_def dispatch_def composeMessage_def Let_def
      stringON_def stringOFF_def midiBuildCommand_def strcat_def c_str_def midiHeader_def
      midiSpacer_def midiFooter_def)

lemma dispatch_snippet:
  "\<not> isOscToggle w \<Longrightarrow> oscPayload_f w < 0 \<Longrightarrow> oscAddress w = ''/load'' \<Longrightarrow>
   oscPayload_s w = ''snippet'' \<Longrightarrow> 0 \<le> oscPayload_i w \<Longrightarrow>
   dispatch True [CHR 0x00] [CHR 0x00] w =
     Inr (w, [SendOSC ''/load'' [OString ''snippet'', OInt (oscPayload_i w)],
              SendSysEx (CHR 0xF0 # ''/load snippet'' @ [CHR 0xF7]),
              SerialPrint (friendlyDebugName w)])"
  by (simp add: dispatch_def composeMessage_def midiBuildCommand_def strcat_def c_str_def
      midiHeader_def midiSpacer_def midiFooter_def)

text \<open>The loop over the widgets treats each widget on its own.\<close>

lemma udpWidgets_map:
  "udpWidgets fm msg ws =
     (map (\<lambda>w. fst (udpWidget fm msg w)) ws,
      concat (map (\<lambda>w. fst (snd (udpWidget fm msg w))) ws),
      sum_list (map (\<lambda>w. snd (snd (udpWidget fm msg w))) ws))"
  by (induction ws) (auto split: prod.splits)

section \<open>Floating point rounding: bounds and exact cases\<close>

lemma pow2_mono: "a \<le> b \<Longrightarrow> (2::real) powi a \<le> 2 powi b"
  using power_int_strict_increasing [of a b "2::real"] by (cases "a = b") auto

lemma pow2_less_D: "(2::real) powi a \<le> x \<Longrightarrow> x < 2 powi b \<Longrightarrow> a < b"
  using pow2_mono [of b a] by (cases "a < b") auto

lemma pow2_of_int: "0 \<le> k \<Longrightarrow> (2::real) powi k = of_int (2 ^ nat k)"
  by (simp add: power_int_def)

lemma pow2_diff: "(2::real) powi (a - b) = 2 powi a / 2 powi b"
  by (simp add: power_int_diff)

lemma roundHalfEven_le: "x \<le> of_int N \<Longrightarrow> roundHalfEven x \<le> N"
proof -
  assume h: "x \<le> of_int N"
  then have f: "\<lfloor>x\<rfloor> \<le> N" by (simp add: floor_le_iff)
  show ?thesis
  proof (cases "\<lfloor>x\<rfloor> = N")
    case True
    with h have "x - of_int \<lfloor>x\<rfloor> \<le> 0" by simp
    then show ?thesis using True by (simp add: roundHalfEven_def Let_def)
  next
    case False
    with f have "\<lfloor>x\<rfloor> + 1 \<le> N" by simp
    with f show ?thesis by (simp add: roundHalfEven_def Let_def)
  qed
qed

lemma roundHalfEven_ge: "of_int N \<le> x \<Longrightarrow> N \<le> roundHalfEven x"
proof -
  assume "of_int N \<le> x"
  then have "N \<le> \<lfloor>x\<rfloor>" by (simp add: le_floor_iff)
  then show ?thesis by (simp add: roundHalfEven_def Let_def)
qed

text \<open>What the search for the exponent returns.\<close>

lemma floatExponent_props:
  "floatExponent n e0 x = e \<Longrightarrow>
     e \<le> e0 \<and> e0 - int n \<le> e \<and> (2 powi e \<le> x \<or> e = e0 - int n)
     \<and> (e < e0 \<longrightarrow> x < 2 powi (e + 1))"
proof (induction n arbitrary: e0)
  case 0
  then show ?case by simp
next
  case (Suc n)
  show ?case
  proof (cases "2 powi e0 \<le> x")
    case True
    with Suc.prems show ?thesis by simp
  next
    case False
    with Suc.prems have r: "floatExponent n (e0 - 1) x = e" by simp
    note ih = Suc.IH [OF r]
    from ih have 1: "e \<le> e0" and 2: "e0 - int (Suc n) \<le> e" by simp_all
    from ih have 3: "2 powi e \<le> x \<or> e = e0 - int (Suc n)" by auto
    have 4: "e < e0 \<longrightarrow> x < 2 powi (e + 1)"
    proof (cases "e = e0 - 1")
      case True
      with False show ?thesis by simp
    next
      case False
      with ih show ?thesis by auto
    qed
    from 1 2 3 4 show ?thesis by blast
  qed
qed

lemma floatExponent_le:
  assumes "x < 2 powi (E + 1)" and "emin \<le> E" and "emin \<le> emax"
  shows "floatExponent (nat (emax - emin)) emax x \<le> E"
proof -
  define e where "e = floatExponent (nat (emax - emin)) emax x"
  from floatExponent_props [OF e_def [symmetric]] assms(3)
  have "2 powi e \<le> x \<or> e = emin" by simp
  then show ?thesis
  proof
    assume "2 powi e \<le> x"
    from this assms(1) have "e < E + 1" by (rule pow2_less_D)
    then show ?thesis by (simp add: e_def)
  next
    assume "e = emin"
    with assms(2) show ?thesis by (simp add: e_def)
  qed
qed

text \<open>
  A bound that is itself a whole multiple of a spacing at least as coarse as the one
  used is respected by the rounding, in both directions.
\<close>

lemma roundToFloat_le:
  assumes le: "x \<le> of_int N * 2 powi j"
    and k: "floatExponent (nat (emax - emin)) emax \<bar>x\<bar> - int p + 1 \<le> j"
  shows "roundToFloat p emin emax x \<le> of_int N * 2 powi j"
proof -
  define k where "k = floatExponent (nat (emax - emin)) emax \<bar>x\<bar> - int p + 1"
  define q :: real where "q = 2 powi k"
  have qpos: "0 < q" by (simp add: q_def)
  from k have kj: "0 \<le> j - k" by (simp add: k_def)
  have "(2::real) powi j / q = 2 powi (j - k)" by (simp add: q_def pow2_diff)
  also have "\<dots> = of_int (2 ^ nat (j - k))" using kj by (rule pow2_of_int)
  finally have "of_int N * (2 powi j / q) = of_int N * of_int (2 ^ nat (j - k))"
    by (simp only:)
  then have c: "of_int N * 2 powi j / q = of_int (N * 2 ^ nat (j - k))"
    by (simp only: times_divide_eq_right of_int_mult)
  from le qpos have "x / q \<le> of_int N * 2 powi j / q" by (simp add: divide_right_mono)
  with c have "x / q \<le> of_int (N * 2 ^ nat (j - k))" by simp
  then have "roundHalfEven (x / q) \<le> N * 2 ^ nat (j - k)" by (rule roundHalfEven_le)
  then have "(of_int (roundHalfEven (x / q)) :: real) \<le> of_int (N * 2 ^ nat (j - k))"
    by (simp only: of_int_le_iff)
  with qpos have a: "of_int (roundHalfEven (x / q)) * q \<le> of_int (N * 2 ^ nat (j - k)) * q"
    by (simp add: mult_right_mono)
  have b: "of_int (N * 2 ^ nat (j - k)) * q = of_int N * 2 powi j"
    using qpos by (simp only: c [symmetric]) simp
  have r: "roundToFloat p emin emax x = of_int (roundHalfEven (x / q)) * q"
    by (simp add: roundToFloat_def Let_def k_def q_def)
  from a have "of_int (roundHalfEven (x / q)) * q \<le> of_int N * 2 powi j"
    by (simp only: b)
  then show ?thesis by (simp only: r)
qed

lemma roundToFloat_ge:
  assumes ge: "of_int N * 2 powi j \<le> x"
    and k: "floatExponent (nat (emax - emin)) emax \<bar>x\<bar> - int p + 1 \<le> j"
  shows "of_int N * 2 powi j \<le> roundToFloat p emin emax x"
proof -
  define k where "k = floatExponent (nat (emax - emin)) emax \<bar>x\<bar> - int p + 1"
  define q :: real where "q = 2 powi k"
  have qpos: "0 < q" by (simp add: q_def)
  from k have kj: "0 \<le> j - k" by (simp add: k_def)
  have "(2::real) powi j / q = 2 powi (j - k)" by (simp add: q_def pow2_diff)
  also have "\<dots> = of_int (2 ^ nat (j - k))" using kj by (rule pow2_of_int)
  finally have "of_int N * (2 powi j / q) = of_int N * of_int (2 ^ nat (j - k))"
    by (simp only:)
  then have c: "of_int N * 2 powi j / q = of_int (N * 2 ^ nat (j - k))"
    by (simp only: times_divide_eq_right of_int_mult)
  from ge qpos have "of_int N * 2 powi j / q \<le> x / q" by (simp add: divide_right_mono)
  with c have "of_int (N * 2 ^ nat (j - k)) \<le> x / q" by simp
  then have "N * 2 ^ nat (j - k) \<le> roundHalfEven (x / q)" by (rule roundHalfEven_ge)
  then have "(of_int (N * 2 ^ nat (j - k)) :: real) \<le> of_int (roundHalfEven (x / q))"
    by (simp only: of_int_le_iff)
  with qpos have a: "of_int (N * 2 ^ nat (j - k)) * q \<le> of_int (roundHalfEven (x / q)) * q"
    by (simp add: mult_right_mono)
  have b: "of_int (N * 2 ^ nat (j - k)) * q = of_int N * 2 powi j"
    using qpos by (simp only: c [symmetric]) simp
  have r: "roundToFloat p emin emax x = of_int (roundHalfEven (x / q)) * q"
    by (simp add: roundToFloat_def Let_def k_def q_def)
  from a have "of_int N * 2 powi j \<le> of_int (roundHalfEven (x / q)) * q"
    by (simp only: b)
  then show ?thesis by (simp only: r)
qed

lemma roundToFloat_exact:
  assumes "x = of_int N * 2 powi j"
    and "floatExponent (nat (emax - emin)) emax \<bar>x\<bar> - int p + 1 \<le> j"
  shows "roundToFloat p emin emax x = x"
  using roundToFloat_le [of x N j emax emin p] roundToFloat_ge [of N j x emax emin p] assms
  by simp

text \<open>The binary32 exponent of a number below 128 is at most 6, and so is the binary64 one.\<close>

lemma exponent32_le6: "\<bar>x\<bar> < 128 \<Longrightarrow> floatExponent (nat (127 - (-126))) 127 \<bar>x\<bar> \<le> 6"
  by (rule floatExponent_le) simp_all

lemma exponent64_le6: "\<bar>x\<bar> < 128 \<Longrightarrow> floatExponent (nat (1023 - (-1022))) 1023 \<bar>x\<bar> \<le> 6"
  by (rule floatExponent_le) simp_all

lemma binary32_exact:
  assumes "\<bar>x\<bar> < 128" and "x = of_int N * 2 powi j" and "-17 \<le> j"
  shows "binary32 x = x"
  unfolding binary32_def
  using exponent32_le6 [OF assms(1)] assms(3)
  by (intro roundToFloat_exact [OF assms(2)]) simp

lemma binary64_exact:
  assumes "\<bar>x\<bar> < 128" and "x = of_int N * 2 powi j" and "-46 \<le> j"
  shows "binary64 x = x"
  unfolding binary64_def
  using exponent64_le6 [OF assms(1)] assms(3)
  by (intro roundToFloat_exact [OF assms(2)]) simp

text \<open>
  The fader arithmetic: for a product \<open>x\<close> between 0 and 127, the binary32 product
  \<open>p\<close> stays between 0 and 127, and the binary64 sum \<open>p + 0.5\<close>, cast to
  \<^verbatim>\<open>int\<close>, is \<open>p\<close> rounded to the nearest integer, halves upwards.
\<close>

lemma binary32_range:
  assumes "0 \<le> x" and "x \<le> 127"
  shows "0 \<le> binary32 x \<and> binary32 x \<le> 127"
proof -
  from assms have a: "\<bar>x\<bar> < 128" by simp
  note e = exponent32_le6 [OF a]
  have "of_int 0 * 2 powi 0 \<le> roundToFloat 24 (-126) 127 x"
    using assms(1) e by (intro roundToFloat_ge) simp_all
  moreover have "roundToFloat 24 (-126) 127 x \<le> of_int 127 * 2 powi 0"
    using assms(2) e by (intro roundToFloat_le) simp_all
  ultimately show ?thesis by (simp add: binary32_def)
qed

lemma fader_cast:
  assumes x0: "0 \<le> x" and x127: "x \<le> 127"
  shows "int_cast (binary64 (binary32 x + 1/2)) = round (binary32 x)"
proof -
  define p where "p = binary32 x"
  define y where "y = p + 1/2"
  define ex where "ex = floatExponent (nat (127 - (-126))) 127 \<bar>x\<bar>"
  from binary32_range [OF x0 x127] have p0: "0 \<le> p" and p127: "p \<le> 127"
    by (simp_all add: p_def)
  then have ay: "\<bar>y\<bar> < 128" by (simp add: y_def)
  note e64 = exponent64_le6 [OF ay]
  have fl: "\<lfloor>binary64 y\<rfloor> = \<lfloor>y\<rfloor>"
  proof (cases "-23 \<le> ex")
    case True
    define K where "K = roundHalfEven (x / 2 powi (ex - 23))"
    have pk: "p = of_int K * 2 powi (ex - 23)"
      by (simp add: p_def binary32_def roundToFloat_def Let_def ex_def K_def)
    from True have n: "0 \<le> ex - 23 + 46" by simp
    define c :: real where "c = 2 powi (-46)"
    define W :: int where "W = 2 ^ nat (ex - 23 + 46)"
    have "(2::real) powi (ex - 23) = 2 powi (ex - 23 + 46) * 2 powi (-46)"
      using power_int_add [of "2::real" "ex - 23 + 46" "-46"] by simp
    also have "(2::real) powi (ex - 23 + 46) = of_int W"
      unfolding W_def using n by (rule pow2_of_int)
    finally have q: "(2::real) powi (ex - 23) = of_int W * c" by (simp only: c_def)
    have h: "(1/2::real) = of_int (2 ^ 45) * c"
      by (simp add: c_def)
    have "y = of_int K * (of_int W * c) + 1/2"
      by (simp only: y_def pk q)
    then have "y = of_int K * (of_int W * c) + of_int (2 ^ 45) * c"
      using h by simp
    also have "\<dots> = of_int (K * W + 2 ^ 45) * c"
      by (simp add: algebra_simps)
    finally have "y = of_int (K * W + 2 ^ 45) * 2 powi (-46)" by (simp only: c_def)
    with ay have "binary64 y = y" by (rule binary64_exact) simp
    then show ?thesis by simp
  next
    case False
    then have lt: "ex < 127" and ex1: "ex + 1 \<le> -23" by simp_all
    from floatExponent_props [OF ex_def [symmetric]] lt
    have "\<bar>x\<bar> < 2 powi (ex + 1)" by simp
    also have "(2::real) powi (ex + 1) \<le> 2 powi (-23)" using ex1 by (rule pow2_mono)
    finally have xs: "x \<le> of_int 1 * 2 powi (-23)" by simp
    have "roundToFloat 24 (-126) 127 x \<le> of_int 1 * 2 powi (-23)"
      using xs False by (intro roundToFloat_le) (simp_all add: ex_def)
    then have ps: "p \<le> 2 powi (-23)" by (simp add: p_def binary32_def)
    have lo: "of_int 1 * 2 powi (-1) \<le> y" using p0 by (simp add: y_def)
    have hi: "y \<le> of_int (2 ^ 22 + 1) * 2 powi (-23)" using ps by (simp add: y_def)
    have "of_int 1 * 2 powi (-1) \<le> roundToFloat 53 (-1022) 1023 y"
      using lo e64 by (intro roundToFloat_ge) simp_all
    moreover have "roundToFloat 53 (-1022) 1023 y \<le> of_int (2 ^ 22 + 1) * 2 powi (-23)"
      using hi e64 by (intro roundToFloat_le) simp_all
    ultimately have "1/2 \<le> binary64 y" and "binary64 y < 1"
      by (simp_all add: binary64_def)
    then have "\<lfloor>binary64 y\<rfloor> = 0" by (simp add: floor_eq_iff)
    moreover from lo hi have "\<lfloor>y\<rfloor> = 0" by (simp add: floor_eq_iff)
    ultimately show ?thesis by simp
  qed
  have "0 \<le> binary64 y"
  proof -
    have "of_int 0 * 2 powi 0 \<le> roundToFloat 53 (-1022) 1023 y"
      using p0 e64 by (intro roundToFloat_ge) (simp_all add: y_def)
    then show ?thesis by (simp add: binary64_def)
  qed
  then have "int_cast (binary64 y) = \<lfloor>binary64 y\<rfloor>" by (simp add: int_cast_def)
  with fl show ?thesis by (simp add: y_def p_def round_def)
qed

lemma fader_cast_bounds:
  assumes "0 \<le> x" and "x \<le> 127"
  shows "0 \<le> round (binary32 x) \<and> round (binary32 x) \<le> 127"
proof -
  from binary32_range [OF assms] have p: "0 \<le> binary32 x" "binary32 x \<le> 127" by simp_all
  from p(1) have lo: "0 \<le> round (binary32 x)" by (simp add: round_def)
  from p(2) have "round (binary32 x) \<le> round (127::real)" by (rule round_mono)
  then have hi: "round (binary32 x) \<le> 127" by simp
  from lo hi show ?thesis by blast
qed

text \<open>The decimal text written by \<^verbatim>\<open>itoa\<close> is made of digits and reads as the number.\<close>

lemma digit_char: "k < 10 \<Longrightarrow> (of_char (''0123456789'' ! k) :: nat) = 48 + k"
proof -
  assume "k < 10"
  then have "k = 0 \<or> k = 1 \<or> k = 2 \<or> k = 3 \<or> k = 4 \<or> k = 5 \<or> k = 6 \<or> k = 7 \<or> k = 8 \<or> k = 9"
    by arith
  then show ?thesis by (elim disjE) simp_all
qed

lemma decimalValue_snoc:
  "decimalValue (s @ [c]) = 10 * decimalValue s + ((of_char c :: nat) - 48)"
  by (simp add: decimalValue_def)

lemma decimal_digits: "list_all isDigit (decimal n)"
proof (induction n rule: decimal.induct)
  case (1 n)
  have m: "n mod 10 < 10" by simp
  show ?case
  proof (cases "n < 10")
    case True
    then show ?thesis
      by (subst decimal.simps) (simp add: isDigit_def digit_char)
  next
    case False
    with 1 have "list_all isDigit (decimal (n div 10))" by simp
    with False m show ?thesis
      by (subst decimal.simps) (simp add: isDigit_def digit_char)
  qed
qed

lemma decimalValue_decimal: "decimalValue (decimal n) = n"
proof (induction n rule: decimal.induct)
  case (1 n)
  have m: "n mod 10 < 10" by simp
  show ?case
  proof (cases "n < 10")
    case True
    then show ?thesis
      by (subst decimal.simps) (simp add: decimalValue_def digit_char)
  next
    case False
    with 1 have "decimalValue (decimal (n div 10)) = n div 10" by simp
    with False m show ?thesis
      by (subst decimal.simps) (simp add: decimalValue_snoc digit_char)
  qed
qed

lemma length_decimal_le3: "n < 1000 \<Longrightarrow> length (decimal n) \<le> 3"
  by (subst decimal.simps, subst decimal.simps, subst decimal.simps) auto

section \<open>When a dispatch returns\<close>

lemma length_c_str_le: "length (c_str s) \<le> length s"
  by (simp add: c_str_def length_takeWhile_le)

text \<open>The MIDI text that is built, and the bound under which it is.\<close>

lemma midiBuildCommand_eq:
  "midiBuildCommand aS aF oscCommand oscArgument =
     (if length (c_str oscCommand) + length (c_str aS) + length (c_str oscArgument)
           + length (c_str aF) + 4 \<le> 64
      then Some (CHR 0xF0 # c_str oscCommand @ CHR 0x20 # c_str aS @ c_str oscArgument
                   @ CHR 0xF7 # c_str aF)
      else None)"
  by (simp add: midiBuildCommand_def strcat_def c_str_def midiHeader_def midiSpacer_def
      midiFooter_def)

lemma midiBuildCommand_fits:
  assumes "length (c_str oscCommand) + length (c_str aS) + n + length (c_str aF) + 4 \<le> 64"
    and "length (c_str oscArgument) \<le> n"
  shows "\<exists>frame. midiBuildCommand aS aF oscCommand oscArgument = Some frame"
  using assms by (simp add: midiBuildCommand_eq)

text \<open>The message composed, kind by kind.\<close>

lemma composeMessage_Toggle:
  assumes "isOscToggle w"
  shows "composeMessage w =
           Inr (w\<lparr>oscState := (if oscState w < 1 then 1 else 0),
                  oscPayload_s := (if oscState w < 1 then stringON else stringOFF)\<rparr>,
                [OInt (if oscState w < 1 then 1 else 0)])"
  using assms by (simp add: composeMessage_def Let_def)

lemma composeMessage_Fader:
  assumes k: "widgetKind w = Fader" and le1: "oscPayload_f w \<le> 1"
  shows "composeMessage w =
           Inr (w\<lparr>oscPayload_s := itoa (round (binary32 (oscPayload_f w * 127)))\<rparr>,
                [OFloat (oscPayload_f w)])
       \<and> 0 \<le> round (binary32 (oscPayload_f w * 127))
       \<and> round (binary32 (oscPayload_f w * 127)) \<le> 127
       \<and> length (itoa (round (binary32 (oscPayload_f w * 127)))) \<le> 3"
proof -
  from k have nt: "\<not> isOscToggle w" and ge0: "0 \<le> oscPayload_f w"
    by (auto simp: widgetKind_def split: if_splits)
  define r where "r = round (binary32 (oscPayload_f w * 127))"
  from ge0 le1 have x0: "0 \<le> oscPayload_f w * 127" and x1: "oscPayload_f w * 127 \<le> 127"
    by simp_all
  from fader_cast [OF x0 x1]
  have ic: "int_cast (binary64 (binary32 (oscPayload_f w * 127) + 1/2)) = r"
    by (simp add: r_def)
  from fader_cast_bounds [OF x0 x1] have rb: "0 \<le> r" "r \<le> 127"
    by (simp_all add: r_def)
  then have "nat r < 1000" by simp
  then have "length (decimal (nat r)) \<le> 3" by (rule length_decimal_le3)
  with rb have l3: "length (itoa r) \<le> 3" by (simp add: itoa_def)
  then have fit: "length (itoa r) + 1 \<le> 4" by simp
  from nt ge0 ic fit
  have "composeMessage w = Inr (w\<lparr>oscPayload_s := itoa r\<rparr>, [OFloat (oscPayload_f w)])"
    by (simp add: composeMessage_def Let_def)
  with rb l3 show ?thesis by (simp add: r_def)
qed

lemma composeMessage_Fire:
  assumes "widgetKind w = Fire"
  shows "composeMessage w =
           Inr (w, (if oscPayload_s w \<noteq> [] then [OString (oscPayload_s w)] else []) @
                   (if oscPayload_i w \<ge> 0 then [OInt (oscPayload_i w)] else []))"
  using assms by (simp add: composeMessage_def widgetKind_def split: if_splits)

text \<open>Under the caller-side bound the message is composed and the MIDI text fits.\<close>

lemma composeMessage_fits:
  assumes fits: "dispatchFits aS aF w"
  shows "\<exists>w' args frame. composeMessage w = Inr (w', args)
           \<and> midiBuildCommand aS aF (oscAddress w') (oscPayload_s w') = Some frame"
proof (cases "widgetKind w")
  case Toggle
  then have t: "isOscToggle w" by (simp add: widgetKind_def split: if_splits)
  define w' where "w' = w\<lparr>oscState := (if oscState w < 1 then 1 else 0),
                  oscPayload_s := (if oscState w < 1 then stringON else stringOFF)\<rparr>"
  have c: "composeMessage w = Inr (w', [OInt (if oscState w < 1 then 1 else 0)])"
    using composeMessage_Toggle [OF t] by (simp add: w'_def)
  have l: "length (c_str (oscPayload_s w')) \<le> 3"
    by (simp add: w'_def stringON_def stringOFF_def c_str_def)
  from fits Toggle
  have b: "length (c_str (oscAddress w')) + length (c_str aS) + 3 + length (c_str aF) + 4 \<le> 64"
    by (simp add: dispatchFits_def w'_def)
  from midiBuildCommand_fits [OF b l] c show ?thesis by blast
next
  case Fader
  with fits have le1: "oscPayload_f w \<le> 1" by (simp add: dispatchFits_def)
  define w' where "w' = w\<lparr>oscPayload_s := itoa (round (binary32 (oscPayload_f w * 127)))\<rparr>"
  from composeMessage_Fader [OF Fader le1]
  have c: "composeMessage w = Inr (w', [OFloat (oscPayload_f w)])"
    and l3: "length (oscPayload_s w') \<le> 3"
    by (simp_all add: w'_def)
  from l3 length_c_str_le [of "oscPayload_s w'"]
  have l: "length (c_str (oscPayload_s w')) \<le> 3" by simp
  from fits Fader
  have b: "length (c_str (oscAddress w')) + length (c_str aS) + 3 + length (c_str aF) + 4 \<le> 64"
    by (simp add: dispatchFits_def w'_def)
  from midiBuildCommand_fits [OF b l] c show ?thesis by blast
next
  case Fire
  note c = composeMessage_Fire [OF Fire]
  from fits Fire
  have b: "length (c_str (oscAddress w)) + length (c_str aS) + length (c_str (oscPayload_s w))
             + length (c_str aF) + 4 \<le> 64"
    by (simp add: dispatchFits_def)
  from midiBuildCommand_fits [OF b order_refl] c show ?thesis by blast
qed

lemma dispatch_returns:
  assumes fits: "dispatchFits aS aF w"
  shows "\<exists>w' evs. dispatch xr aS aF w = Inr (w', evs)"
proof -
  from composeMessage_fits [OF fits] obtain w' args frame where
    "composeMessage w = Inr (w', args)"
    "midiBuildCommand aS aF (oscAddress w') (oscPayload_s w') = Some frame"
    by blast
  then show ?thesis by (simp add: dispatch_def)
qed

text \<open>The bound still holds after a dispatch, and it does not read the press timing.\<close>

lemma dispatchFits_after:
  assumes fits: "dispatchFits aS aF w" and d: "dispatch xr aS aF w = Inr (w', evs)"
  shows "dispatchFits aS aF w'"
proof -
  from d obtain args where c: "composeMessage w = Inr (w', args)" by (rule dispatchE)
  note k = composeMessage_keeps [OF c]
  from k have kind: "widgetKind w' = widgetKind w" by (simp add: widgetKind_def)
  show ?thesis
  proof (cases "widgetKind w = Fire")
    case True
    from composeMessage_Fire [OF True] c have "w' = w" by simp
    with fits show ?thesis by simp
  next
    case False
    with fits kind k show ?thesis by (simp add: dispatchFits_def)
  qed
qed

lemma dispatchFits_timing [simp]:
  "dispatchFits aS aF (w\<lparr>wasPressed := b\<rparr>) = dispatchFits aS aF w"
  "dispatchFits aS aF (w\<lparr>pressedMillis := t\<rparr>) = dispatchFits aS aF w"
  by (simp_all add: dispatchFits_def widgetKind_def)

lemma dispatchFits_buttonA: "dispatchFits [CHR 0x00] [CHR 0x00] buttonA"
  by (simp add: dispatchFits_def widgetKind_def buttonA_eq newOSCWidget_def c_str_def)

lemma dispatchFits_bttnA_long: "dispatchFits [CHR 0x00] [CHR 0x00] bttnA_long"
  by (simp add: dispatchFits_def widgetKind_def bttnA_long_eq newOSCWidget_def c_str_def)

lemma dispatchFits_buttonE: "dispatchFits [CHR 0x00] [CHR 0x00] buttonE"
  by (simp add: dispatchFits_def widgetKind_def buttonE_eq newOSCWidget_def c_str_def)

section \<open>Command codec and dispatch\<close>

text \<open>
  C9. The claim: when the rendered frame (preamble, address, separator, payload,
  terminator) is at most 64 bytes, \<^verbatim>\<open>midiBuildCommand\<close> produces exactly that
  concatenation. The code does not: \<^verbatim>\<open>strcat\<close> stops at the NUL that is the
  second byte of \<^verbatim>\<open>midiHeader\<close>, so only the byte 0xF0 of the preamble is
  copied, and no result of \<^verbatim>\<open>midiBuildCommand\<close> contains a NUL, whatever lies in
  memory behind the one-byte arrays. For the address \<open>/load\<close> and the payload
  \<open>snippet\<close> the rendered frame has 19 bytes; with a NUL right behind each one-byte
  array the code leaves 0xF0, \<open>/load snippet\<close>, 0xF7 in the buffer.
\<close>

theorem midiBuildCommand_loses_preamble:
  "midiBuildCommand afterSpacer afterFooter oscCommand oscArgument
     \<noteq> Some (specFrame oscCommand oscArgument)
   \<and> length (specFrame ''/load'' ''snippet'') \<le> 64
   \<and> midiBuildCommand [CHR 0x00] [CHR 0x00] ''/load'' ''snippet''
       = Some (CHR 0xF0 # ''/load snippet'' @ [CHR 0xF7])"
proof -
  have "CHR 0x00 \<in> set (specFrame oscCommand oscArgument)"
    by (simp add: specFrame_def midiHeader_def)
  then have "midiBuildCommand afterSpacer afterFooter oscCommand oscArgument
     \<noteq> Some (specFrame oscCommand oscArgument)"
    using midiBuildCommand_no_NUL by blast
  moreover have "length (specFrame ''/load'' ''snippet'') \<le> 64"
    by (simp add: specFrame_def midiHeader_def midiSpacer_def midiFooter_def)
  moreover have "midiBuildCommand [CHR 0x00] [CHR 0x00] ''/load'' ''snippet''
       = Some (CHR 0xF0 # ''/load snippet'' @ [CHR 0xF7])"
    by (simp add: midiBuildCommand_def strcat_def c_str_def midiHeader_def midiSpacer_def
        midiFooter_def)
  ultimately show ?thesis by blast
qed

text \<open>
  C4. For every dispatch within the caller-side bound, in either connectivity mode, the
  dispatch returns, and the OSC messages it sends are the widget's message and, if and
  only if \<^verbatim>\<open>do_xRemote\<close> holds (two-way mode) and the widget is of Toggle or Fader
  kind, a second message to the same address with no argument (so never for Fire kind);
  exactly one SysEx is sent, carrying the MIDI text built from the widget's address and
  payload text.
\<close>

theorem dispatch_probe_and_sysex:
  assumes fits: "dispatchFits aS aF w"
  shows "\<exists>w' evs args frame.
           dispatch xr aS aF w = Inr (w', evs)
         \<and> filter isOSC evs =
             SendOSC (oscAddress w) args #
             (if xr \<and> (widgetKind w = Toggle \<or> widgetKind w = Fader)
              then [SendOSC (oscAddress w) []] else [])
         \<and> filter isSysEx evs = [SendSysEx frame]
         \<and> midiBuildCommand aS aF (oscAddress w) (oscPayload_s w') = Some frame"
proof -
  from dispatch_returns [OF fits] obtain w' evs where
    d: "dispatch xr aS aF w = Inr (w', evs)" by blast
  from d obtain args frame where
    c: "composeMessage w = Inr (w', args)" and
    m: "midiBuildCommand aS aF (oscAddress w') (oscPayload_s w') = Some frame" and
    e: "evs = [SendOSC (oscAddress w') args] @
           (if xr \<and> (isOscToggle w' \<or> oscPayload_f w' \<ge> 0) then [SendOSC (oscAddress w') []] else []) @
           [SendSysEx frame] @
           (if \<not> xr then [StartFlash (ledPin w')] else []) @
           [SerialPrint (friendlyDebugName w')]"
    by (rule dispatchE)
  note k = composeMessage_keeps [OF c]
  have p: "(isOscToggle w' \<or> oscPayload_f w' \<ge> 0) = (widgetKind w = Toggle \<or> widgetKind w = Fader)"
    using k by (simp add: widgetKind_def)
  have 1: "filter isOSC evs = SendOSC (oscAddress w) args #
            (if xr \<and> (widgetKind w = Toggle \<or> widgetKind w = Fader)
             then [SendOSC (oscAddress w) []] else [])"
    unfolding e using k p by simp
  have 2: "filter isSysEx evs = [SendSysEx frame]"
    unfolding e by simp
  from m k have 3: "midiBuildCommand aS aF (oscAddress w) (oscPayload_s w') = Some frame"
    by simp
  from d 1 2 3 show ?thesis by blast
qed

theorem dispatch_probe_and_sysex_witness:
  "dispatchFits [CHR 0x00] [CHR 0x00] buttonA \<and> widgetKind buttonA = Fire
   \<and> (\<exists>w' evs args frame.
         dispatch False [CHR 0x00] [CHR 0x00] buttonA = Inr (w', evs)
       \<and> filter isOSC evs = [SendOSC ''/load'' args]
       \<and> filter isSysEx evs = [SendSysEx frame])
   \<and> dispatchFits [CHR 0x00] [CHR 0x00] buttonE \<and> widgetKind buttonE = Toggle
   \<and> (\<exists>w' evs args frame.
         dispatch True [CHR 0x00] [CHR 0x00] buttonE = Inr (w', evs)
       \<and> filter isOSC evs = [SendOSC ''/dca/5/on'' args, SendOSC ''/dca/5/on'' []]
       \<and> filter isSysEx evs = [SendSysEx frame])
   \<and> (\<exists>w' evs args frame.
         dispatch False [CHR 0x00] [CHR 0x00] buttonE = Inr (w', evs)
       \<and> filter isOSC evs = [SendOSC ''/dca/5/on'' args]
       \<and> filter isSysEx evs = [SendSysEx frame])"
proof -
  have ka: "widgetKind buttonA = Fire" and aa: "oscAddress buttonA = ''/load''"
    by (simp_all add: buttonA_eq newOSCWidget_def widgetKind_def)
  have ke: "widgetKind buttonE = Toggle" and ae: "oscAddress buttonE = ''/dca/5/on''"
    by (simp_all add: buttonE_eq newOSCWidget_def widgetKind_def)
  from dispatch_probe_and_sysex [OF dispatchFits_buttonA, of False] ka aa
  have 1: "\<exists>w' evs args frame.
         dispatch False [CHR 0x00] [CHR 0x00] buttonA = Inr (w', evs)
       \<and> filter isOSC evs = [SendOSC ''/load'' args]
       \<and> filter isSysEx evs = [SendSysEx frame]"
    by simp blast
  from dispatch_probe_and_sysex [OF dispatchFits_buttonE, of True] ke ae
  have 2: "\<exists>w' evs args frame.
         dispatch True [CHR 0x00] [CHR 0x00] buttonE = Inr (w', evs)
       \<and> filter isOSC evs = [SendOSC ''/dca/5/on'' args, SendOSC ''/dca/5/on'' []]
       \<and> filter isSysEx evs = [SendSysEx frame]"
    by simp blast
  from dispatch_probe_and_sysex [OF dispatchFits_buttonE, of False] ke ae
  have 3: "\<exists>w' evs args frame.
         dispatch False [CHR 0x00] [CHR 0x00] buttonE = Inr (w', evs)
       \<and> filter isOSC evs = [SendOSC ''/dca/5/on'' args]
       \<and> filter isSysEx evs = [SendSysEx frame]"
    by simp blast
  from dispatchFits_buttonA ka 1 dispatchFits_buttonE ke 2 3 show ?thesis by blast
qed

text \<open>
  C6 (as amended). Dispatching a Toggle widget within the caller-side bound sets its
  state to 1 if the state was below 1 and to 0 otherwise, so 0 goes to 1, 1 goes to 0 and
  the new state is always 0 or 1; the OSC message carries the new state as its single
  integer argument; the payload text handed to the SysEx is \<open>ON\<close> when the new state
  is 1 and \<open>OFF\<close> when it is 0; a second dispatch flips the new state again, and brings
  the state back to its starting value exactly when that value was 0 or 1.
\<close>

theorem toggle_dispatch_flips:
  assumes tog: "isOscToggle w" and fits: "dispatchFits aS aF w"
  shows "\<exists>w1 evs1 frame.
           dispatch xr aS aF w = Inr (w1, evs1)
         \<and> oscState w1 = (if oscState w < 1 then 1 else 0)
         \<and> hd evs1 = SendOSC (oscAddress w) [OInt (oscState w1)]
         \<and> oscPayload_s w1 = (if oscState w1 = 1 then ''ON'' else ''OFF'')
         \<and> midiBuildCommand aS aF (oscAddress w) (oscPayload_s w1) = Some frame
         \<and> filter isSysEx evs1 = [SendSysEx frame]
         \<and> (\<exists>w2 evs2.
               dispatch xr' aS aF w1 = Inr (w2, evs2)
             \<and> oscState w2 = 1 - oscState w1
             \<and> (oscState w2 = oscState w) = (oscState w = 0 \<or> oscState w = 1))"
proof -
  from dispatch_returns [OF fits] obtain w1 evs1 where
    d1: "dispatch xr aS aF w = Inr (w1, evs1)" by blast
  from d1 obtain args frame where
    c1: "composeMessage w = Inr (w1, args)" and
    m1: "midiBuildCommand aS aF (oscAddress w1) (oscPayload_s w1) = Some frame" and
    e1: "evs1 = [SendOSC (oscAddress w1) args] @
           (if xr \<and> (isOscToggle w1 \<or> oscPayload_f w1 \<ge> 0) then [SendOSC (oscAddress w1) []] else []) @
           [SendSysEx frame] @
           (if \<not> xr then [StartFlash (ledPin w1)] else []) @
           [SerialPrint (friendlyDebugName w1)]"
    by (rule dispatchE)
  note k1 = composeMessage_keeps [OF c1]
  from c1 composeMessage_Toggle [OF tog]
  have w1: "w1 = w\<lparr>oscState := (if oscState w < 1 then 1 else 0),
                  oscPayload_s := (if oscState w < 1 then stringON else stringOFF)\<rparr>"
    and a1: "args = [OInt (if oscState w < 1 then 1 else 0)]"
    by simp_all
  from w1 have s1: "oscState w1 = (if oscState w < 1 then 1 else 0)" by simp
  from w1 have p1: "oscPayload_s w1 = (if oscState w1 = 1 then ''ON'' else ''OFF'')"
    by (simp add: stringON_def stringOFF_def)
  have h: "hd evs1 = SendOSC (oscAddress w) [OInt (oscState w1)]"
    unfolding e1 using k1 a1 s1 by simp
  have f: "filter isSysEx evs1 = [SendSysEx frame]"
    unfolding e1 by simp
  from m1 k1 have m: "midiBuildCommand aS aF (oscAddress w) (oscPayload_s w1) = Some frame"
    by simp
  from k1 tog have tog1: "isOscToggle w1" by simp
  from dispatchFits_after [OF fits d1] have fits1: "dispatchFits aS aF w1" .
  from dispatch_returns [OF fits1] obtain w2 evs2 where
    d2: "dispatch xr' aS aF w1 = Inr (w2, evs2)" by blast
  from d2 obtain args2 where c2: "composeMessage w1 = Inr (w2, args2)"
    by (rule dispatchE)
  from c2 composeMessage_Toggle [OF tog1]
  have "oscState w2 = (if oscState w1 < 1 then 1 else 0)" by auto
  with s1 have s2: "oscState w2 = 1 - oscState w1"
    and b: "(oscState w2 = oscState w) = (oscState w = 0 \<or> oscState w = 1)"
    by auto
  from d1 s1 h p1 m f d2 s2 b show ?thesis by blast
qed

theorem toggle_dispatch_flips_witness:
  "isOscToggle buttonE \<and> dispatchFits [CHR 0x00] [CHR 0x00] buttonE \<and> oscState buttonE = 0
   \<and> dispatch True [CHR 0x00] [CHR 0x00] buttonE =
       Inr (buttonE\<lparr>oscPayload_s := ''ON'', oscState := 1\<rparr>,
          [SendOSC ''/dca/5/on'' [OInt 1], SendOSC ''/dca/5/on'' [],
           SendSysEx (CHR 0xF0 # ''/dca/5/on ON'' @ [CHR 0xF7]), SerialPrint ''Button E''])
   \<and> (\<exists>w2 evs2.
         dispatch True [CHR 0x00] [CHR 0x00] (buttonE\<lparr>oscPayload_s := ''ON'', oscState := 1\<rparr>) =
           Inr (w2, evs2)
       \<and> oscState w2 = oscState buttonE)"
proof -
  have t: "isOscToggle buttonE" and s: "oscState buttonE = 0"
    by (simp_all add: buttonE_eq newOSCWidget_def)
  from toggle_dispatch_flips [OF t dispatchFits_buttonE, of True True]
  obtain w1 evs1 w2 evs2 where
    d1: "dispatch True [CHR 0x00] [CHR 0x00] buttonE = Inr (w1, evs1)" and
    d2: "dispatch True [CHR 0x00] [CHR 0x00] w1 = Inr (w2, evs2)" and
    b: "(oscState w2 = oscState buttonE) = (oscState buttonE = 0 \<or> oscState buttonE = 1)"
    by blast
  from d1 dispatch_buttonE have w1: "w1 = buttonE\<lparr>oscPayload_s := ''ON'', oscState := 1\<rparr>"
    by simp
  from b s have "oscState w2 = oscState buttonE" by simp
  with d2 w1 have "\<exists>w2 evs2.
         dispatch True [CHR 0x00] [CHR 0x00] (buttonE\<lparr>oscPayload_s := ''ON'', oscState := 1\<rparr>) =
           Inr (w2, evs2)
       \<and> oscState w2 = oscState buttonE"
    by blast
  with t dispatchFits_buttonE s dispatch_buttonE show ?thesis by blast
qed

text \<open>
  C6 as stated fails: an inbound message \<open>/dca/5/on\<close> with the integer 5 leaves
  Button E in state 5; the first dispatch then sends state 0 and \<open>OFF\<close>, the second
  sends state 1 and \<open>ON\<close>, and the state is 1, not the starting value 5.
\<close>

theorem toggle_twice_from_five_counterexample:
  "isOscToggle buttonE
   \<and> fst (udpWidget (=) \<lparr>hasError = False, address = ''/dca/5/on'', arguments = [OInt 5]\<rparr> buttonE)
       = buttonE\<lparr>oscState := 5\<rparr>
   \<and> dispatch True [CHR 0x00] [CHR 0x00] (buttonE\<lparr>oscState := 5\<rparr>) =
       Inr (buttonE\<lparr>oscPayload_s := ''OFF'', oscState := 0\<rparr>,
          [SendOSC ''/dca/5/on'' [OInt 0], SendOSC ''/dca/5/on'' [],
           SendSysEx (CHR 0xF0 # ''/dca/5/on OFF'' @ [CHR 0xF7]), SerialPrint ''Button E''])
   \<and> dispatch True [CHR 0x00] [CHR 0x00] (buttonE\<lparr>oscPayload_s := ''OFF'', oscState := 0\<rparr>) =
       Inr (buttonE\<lparr>oscPayload_s := ''ON'', oscState := 1\<rparr>,
          [SendOSC ''/dca/5/on'' [OInt 1], SendOSC ''/dca/5/on'' [],
           SendSysEx (CHR 0xF0 # ''/dca/5/on ON'' @ [CHR 0xF7]), SerialPrint ''Button E''])
   \<and> oscState (buttonE\<lparr>oscPayload_s := ''ON'', oscState := 1\<rparr>) \<noteq> oscState (buttonE\<lparr>oscState := 5\<rparr>)"
  by (simp add: buttonE_eq newOSCWidget_def udpWidget_def isInt_def getInt_def Let_def
      dispatch_def composeMessage_def stringON_def stringOFF_def midiBuildCommand_def
      strcat_def c_str_def midiHeader_def midiSpacer_def midiFooter_def)

text \<open>The binary32 value 0x3F020408 and its product with 127.\<close>

lemma float_3F020408_product:
  "binary32 float_3F020408 = float_3F020408
   \<and> binary32 (float_3F020408 * 127) = 129 / 2
   \<and> round (float_3F020408 * 127) = 64"
proof -
  define x where "x = float_3F020408 * 127"
  have xv: "x = 1082130424 / 16777216" by (simp add: x_def float_3F020408_def)
  have e: "floatExponent (nat (127 - (-126))) 127 \<bar>x\<bar> = 6"
  proof -
    define e where "e = floatExponent (nat (127 - (-126))) 127 \<bar>x\<bar>"
    have a: "\<bar>x\<bar> < 128" by (simp add: xv)
    from exponent32_le6 [OF a] have le: "e \<le> 6" by (simp add: e_def)
    have "\<not> e < 6"
    proof
      assume l: "e < 6"
      then have "e < 127" by simp
      with floatExponent_props [OF e_def [symmetric]]
      have "\<bar>x\<bar> < 2 powi (e + 1)" by simp
      also from l have "(2::real) powi (e + 1) \<le> 2 powi 6" by (intro pow2_mono) simp
      finally show False by (simp add: xv)
    qed
    with le show ?thesis by (simp add: e_def)
  qed
  have "binary32 x = of_int (roundHalfEven (x / 2 powi (6 - int 24 + 1))) * 2 powi (6 - int 24 + 1)"
    unfolding binary32_def roundToFloat_def Let_def e by (rule refl)
  also have "\<dots> = 129 / 2"
    by (simp add: roundHalfEven_def Let_def xv)
  finally have 2: "binary32 (float_3F020408 * 127) = 129 / 2" by (simp add: x_def)
  have 1: "binary32 float_3F020408 = float_3F020408"
    unfolding binary32_def
  proof (rule roundToFloat_exact)
    show "float_3F020408 = of_int 8520712 * 2 powi (-24)"
      by (simp add: float_3F020408_def)
    have "floatExponent (nat (127 - (-126))) 127 \<bar>float_3F020408\<bar> \<le> -1"
      by (rule floatExponent_le) (simp_all add: float_3F020408_def)
    then show "floatExponent (nat (127 - (-126))) 127 \<bar>float_3F020408\<bar> - int 24 + 1 \<le> -24"
      by simp
  qed
  have 3: "round (float_3F020408 * 127) = 64"
    by (simp add: float_3F020408_def round_def)
  from 1 2 3 show ?thesis by blast
qed

text \<open>
  C7 (as amended). For every Fader widget with scalar value \<open>v\<close> in [0,1], composing
  the message succeeds and the payload text handed to the SysEx is the decimal text of
  \<open>round p\<close>, where \<open>p\<close> is the product of \<open>v\<close> and 127 as the code computes it,
  in single precision (binary32, rounded to nearest): the text is made of digits, reads
  as that number, and the number is between 0 and 127. In particular 0.75 gives
  \<open>95\<close>, 0 gives \<open>0\<close> and 1 gives \<open>127\<close>. Within the caller-side bound the
  dispatch returns and sends the MIDI text built from the address and this payload text.
\<close>

theorem fader_payload_decimal:
  assumes fk: "widgetKind w = Fader" and le1: "oscPayload_f w \<le> 1"
  shows "\<exists>w'. composeMessage w = Inr (w', [OFloat (oscPayload_f w)])
       \<and> oscPayload_s w' = itoa (round (binary32 (oscPayload_f w * 127)))
       \<and> list_all isDigit (oscPayload_s w')
       \<and> int (decimalValue (oscPayload_s w')) = round (binary32 (oscPayload_f w * 127))
       \<and> 0 \<le> round (binary32 (oscPayload_f w * 127))
       \<and> round (binary32 (oscPayload_f w * 127)) \<le> 127
       \<and> (oscPayload_f w = 3/4 \<longrightarrow> oscPayload_s w' = ''95'')
       \<and> (oscPayload_f w = 0 \<longrightarrow> oscPayload_s w' = ''0'')
       \<and> (oscPayload_f w = 1 \<longrightarrow> oscPayload_s w' = ''127'')
       \<and> (dispatchFits aS aF w \<longrightarrow>
             (\<exists>evs frame. dispatch xr aS aF w = Inr (w', evs)
                \<and> midiBuildCommand aS aF (oscAddress w) (oscPayload_s w') = Some frame
                \<and> filter isSysEx evs = [SendSysEx frame]))"
proof -
  define r where "r = round (binary32 (oscPayload_f w * 127))"
  define w' where "w' = w\<lparr>oscPayload_s := itoa r\<rparr>"
  from composeMessage_Fader [OF fk le1]
  have c: "composeMessage w = Inr (w', [OFloat (oscPayload_f w)])"
    and rb: "0 \<le> r" "r \<le> 127"
    by (simp_all add: r_def w'_def)
  have p: "oscPayload_s w' = itoa r" by (simp add: w'_def)
  from rb have it: "itoa r = decimal (nat r)" by (simp add: itoa_def)
  have dg: "list_all isDigit (oscPayload_s w')"
    unfolding p it by (rule decimal_digits)
  have dv: "int (decimalValue (oscPayload_s w')) = r"
    unfolding p it using rb by (simp add: decimalValue_decimal)
  have i95: "itoa 95 = ''95''" and i0: "itoa 0 = ''0''" and i127: "itoa 127 = ''127''"
    by (simp_all add: itoa_def decimal.simps)
  have v1: "oscPayload_f w = 3/4 \<longrightarrow> oscPayload_s w' = ''95''"
  proof
    assume v: "oscPayload_f w = 3/4"
    have e: "binary32 (381/4) = 381/4"
      by (rule binary32_exact [where N = 381 and j = "-2"]) simp_all
    from v have "oscPayload_f w * 127 = 381/4" by simp
    then have "r = round (381/4 :: real)" by (simp only: r_def e)
    then have "r = 95" by (simp add: round_def)
    with p i95 show "oscPayload_s w' = ''95''" by simp
  qed
  have v2: "oscPayload_f w = 0 \<longrightarrow> oscPayload_s w' = ''0''"
  proof
    assume v: "oscPayload_f w = 0"
    have e: "binary32 (0) = 0"
      by (rule binary32_exact [where N = 0 and j = 0]) simp_all
    from v have "oscPayload_f w * 127 = 0" by simp
    then have "r = round (0 :: real)" by (simp only: r_def e)
    then have "r = 0" by (simp add: round_def)
    with p i0 show "oscPayload_s w' = ''0''" by simp
  qed
  have v3: "oscPayload_f w = 1 \<longrightarrow> oscPayload_s w' = ''127''"
  proof
    assume v: "oscPayload_f w = 1"
    have e: "binary32 (127) = 127"
      by (rule binary32_exact [where N = 127 and j = 0]) simp_all
    from v have "oscPayload_f w * 127 = 127" by simp
    then have "r = round (127 :: real)" by (simp only: r_def e)
    then have "r = 127" by (simp add: round_def)
    with p i127 show "oscPayload_s w' = ''127''" by simp
  qed
  have d: "dispatchFits aS aF w \<longrightarrow>
             (\<exists>evs frame. dispatch xr aS aF w = Inr (w', evs)
                \<and> midiBuildCommand aS aF (oscAddress w) (oscPayload_s w') = Some frame
                \<and> filter isSysEx evs = [SendSysEx frame])"
  proof
    assume fits: "dispatchFits aS aF w"
    from dispatch_returns [OF fits] obtain w'' evs where
      dd: "dispatch xr aS aF w = Inr (w'', evs)" by blast
    from dd obtain args frame where
      c': "composeMessage w = Inr (w'', args)" and
      m: "midiBuildCommand aS aF (oscAddress w'') (oscPayload_s w'') = Some frame" and
      e: "evs = [SendOSC (oscAddress w'') args] @
           (if xr \<and> (isOscToggle w'' \<or> oscPayload_f w'' \<ge> 0) then [SendOSC (oscAddress w'') []] else []) @
           [SendSysEx frame] @
           (if \<not> xr then [StartFlash (ledPin w'')] else []) @
           [SerialPrint (friendlyDebugName w'')]"
      by (rule dispatchE)
    from c c' have eq: "w'' = w'" by simp
    have "oscAddress w' = oscAddress w" by (simp add: w'_def)
    with m eq have 1: "midiBuildCommand aS aF (oscAddress w) (oscPayload_s w') = Some frame"
      by simp
    have 2: "filter isSysEx evs = [SendSysEx frame]" unfolding e by simp
    from dd eq 1 2 show "\<exists>evs frame. dispatch xr aS aF w = Inr (w', evs)
                \<and> midiBuildCommand aS aF (oscAddress w) (oscPayload_s w') = Some frame
                \<and> filter isSysEx evs = [SendSysEx frame]"
      by blast
  qed
  from c p dg dv rb v1 v2 v3 d show ?thesis unfolding r_def by blast
qed

theorem fader_payload_decimal_witness:
  "widgetKind exampleFader = Fader \<and> oscPayload_f exampleFader \<le> 1
   \<and> oscPayload_f exampleFader = 3/4
   \<and> dispatchFits [CHR 0x00] [CHR 0x00] exampleFader
   \<and> composeMessage exampleFader = Inr (exampleFader\<lparr>oscPayload_s := ''95''\<rparr>, [OFloat (3/4)])
   \<and> (\<exists>evs frame.
         dispatch False [CHR 0x00] [CHR 0x00] exampleFader =
           Inr (exampleFader\<lparr>oscPayload_s := ''95''\<rparr>, evs)
       \<and> midiBuildCommand [CHR 0x00] [CHR 0x00] ''/ch/02/mix/09/level'' ''95'' = Some frame
       \<and> filter isSysEx evs = [SendSysEx frame])"
proof -
  have k: "widgetKind exampleFader = Fader" and l: "oscPayload_f exampleFader \<le> 1"
    and v: "oscPayload_f exampleFader = 3/4"
    and a: "oscAddress exampleFader = ''/ch/02/mix/09/level''"
    by (simp_all add: exampleFader_def newOSCWidget_def widgetKind_def)
  have f: "dispatchFits [CHR 0x00] [CHR 0x00] exampleFader"
    by (simp add: dispatchFits_def widgetKind_def exampleFader_def newOSCWidget_def c_str_def)
  from fader_payload_decimal [OF k l, of "[CHR 0x00]" "[CHR 0x00]" False] v f
  obtain w' evs frame where c: "composeMessage exampleFader = Inr (w', [OFloat (3/4)])"
    and p: "oscPayload_s w' = ''95''"
    and d: "dispatch False [CHR 0x00] [CHR 0x00] exampleFader = Inr (w', evs)"
    and m: "midiBuildCommand [CHR 0x00] [CHR 0x00] (oscAddress exampleFader) (oscPayload_s w') = Some frame"
    and s: "filter isSysEx evs = [SendSysEx frame]"
    by auto
  from c have "w' = exampleFader\<lparr>oscPayload_s := oscPayload_s w'\<rparr>"
    by (auto simp: composeMessage_def Let_def split: if_splits)
  with p have w': "w' = exampleFader\<lparr>oscPayload_s := ''95''\<rparr>" by simp
  from d w' have d': "dispatch False [CHR 0x00] [CHR 0x00] exampleFader =
           Inr (exampleFader\<lparr>oscPayload_s := ''95''\<rparr>, evs)"
    by simp
  from m a p have m': "midiBuildCommand [CHR 0x00] [CHR 0x00] ''/ch/02/mix/09/level'' ''95'' = Some frame"
    by simp
  from d' m' s have "\<exists>evs frame.
         dispatch False [CHR 0x00] [CHR 0x00] exampleFader =
           Inr (exampleFader\<lparr>oscPayload_s := ''95''\<rparr>, evs)
       \<and> midiBuildCommand [CHR 0x00] [CHR 0x00] ''/ch/02/mix/09/level'' ''95'' = Some frame
       \<and> filter isSysEx evs = [SendSysEx frame]"
    by blast
  with k l v f c w' show ?thesis by simp
qed

text \<open>
  C7 as stated fails: for the fader value 0x3F020408 (about 0.5079, a binary32 value in
  [0,1]) the exact product with 127 is just below 64.5 and rounds to 64, but the
  single-precision product is 64.5, and the code writes \<open>65\<close>.
\<close>

theorem fader_binary32_counterexample:
  "widgetKind (faderAt float_3F020408) = Fader
   \<and> 0 \<le> float_3F020408 \<and> float_3F020408 \<le> 1
   \<and> binary32 float_3F020408 = float_3F020408
   \<and> round (float_3F020408 * 127) = 64 \<and> itoa 64 = ''64''
   \<and> composeMessage (faderAt float_3F020408) =
       Inr ((faderAt float_3F020408)\<lparr>oscPayload_s := ''65''\<rparr>, [OFloat float_3F020408])"
proof -
  have v: "oscPayload_f (faderAt float_3F020408) = float_3F020408"
    by (simp add: faderAt_def newOSCWidget_def)
  have b: "0 \<le> float_3F020408" "float_3F020408 \<le> 1"
    by (simp_all add: float_3F020408_def)
  from b have k: "widgetKind (faderAt float_3F020408) = Fader"
    by (simp add: widgetKind_def faderAt_def newOSCWidget_def)
  from b v have l: "oscPayload_f (faderAt float_3F020408) \<le> 1" by simp
  have i: "itoa 64 = ''64''" "itoa 65 = ''65''"
    by (simp_all add: itoa_def decimal.simps)
  from float_3F020408_product have pr: "binary32 (float_3F020408 * 127) = 129 / 2"
    by blast
  have "round (binary32 (float_3F020408 * 127)) = round (129 / 2 :: real)"
    by (simp only: pr)
  also have "\<dots> = 65" by (simp add: round_def)
  finally have "round (binary32 (float_3F020408 * 127)) = 65" .
  with composeMessage_Fader [OF k l] v i
  have c: "composeMessage (faderAt float_3F020408) =
       Inr ((faderAt float_3F020408)\<lparr>oscPayload_s := ''65''\<rparr>, [OFloat float_3F020408])"
    by simp
  from k b float_3F020408_product i c show ?thesis by blast
qed

section \<open>Input state machine: short press and long press\<close>

text \<open>
  C1 (as amended). For every widget whose trigger kind is Short-press, the Short-press
  Action is emitted at the poll that finds the press edge of the button, whatever the
  length of the hold that follows, and at no other poll: not at the release edge and not
  while the button is held. At the press edge the widget is dispatched with the press
  time stored; at every other poll nothing is sent.
\<close>

theorem short_press_fires_on_press_edge:
  assumes "actionTrigger w = action_PRESS"
  shows "emitsAction smp w = (toggled smp \<and> readPressed smp)
       \<and> widgetTick xr aS aF smp w =
           (if toggled smp \<and> readPressed smp
            then dispatch xr aS aF (w\<lparr>pressedMillis := millis smp, wasPressed := True\<rparr>)
            else Inr (fst (pollButton smp w), []))"
  using assms
  by (simp add: widgetTick_def emitsAction_def pollButton_def action_PRESS_def
      action_NOTHING_def action_LONG_PRESS_def)

theorem short_press_fires_on_press_edge_witness:
  "actionTrigger buttonA = action_PRESS
   \<and> emitsAction (pressEdge 0) buttonA
   \<and> \<not> emitsAction (heldPoll 5000) (buttonA\<lparr>pressedMillis := 0, wasPressed := True\<rparr>)
   \<and> \<not> emitsAction (releaseEdge 100) (buttonA\<lparr>pressedMillis := 0, wasPressed := True\<rparr>)"
proof -
  have a: "actionTrigger buttonA = action_PRESS"
    by (simp add: buttonA_eq newOSCWidget_def)
  then have b: "actionTrigger (buttonA\<lparr>pressedMillis := 0, wasPressed := True\<rparr>) = action_PRESS"
    by simp
  from short_press_fires_on_press_edge [OF a, of "pressEdge 0"]
  have 1: "emitsAction (pressEdge 0) buttonA" by (simp add: pressEdge_def)
  from short_press_fires_on_press_edge [OF b, of "heldPoll 5000"]
  have 2: "\<not> emitsAction (heldPoll 5000) (buttonA\<lparr>pressedMillis := 0, wasPressed := True\<rparr>)"
    by (simp add: heldPoll_def)
  from short_press_fires_on_press_edge [OF b, of "releaseEdge 100"]
  have 3: "\<not> emitsAction (releaseEdge 100) (buttonA\<lparr>pressedMillis := 0, wasPressed := True\<rparr>)"
    by (simp add: releaseEdge_def)
  from a 1 2 3 show ?thesis by blast
qed

text \<open>
  C1 as stated fails: Button A (trigger Short-press) is pressed at time 0 and released at
  time 100, well before the long-press threshold of 3000. The poll that finds the press
  edge dispatches the Short-press Action; the poll that finds the release edge sends
  nothing.
\<close>

theorem short_press_on_release_counterexample:
  "actionTrigger buttonA = action_PRESS
   \<and> widgetTick True [CHR 0x00] [CHR 0x00] (pressEdge 0) buttonA =
       Inr (buttonA\<lparr>pressedMillis := 0, wasPressed := True\<rparr>,
            [SendOSC ''/load'' [OString ''snippet'', OInt 13],
             SendSysEx (CHR 0xF0 # ''/load snippet'' @ [CHR 0xF7]),
             SerialPrint ''Button A''])
   \<and> widgetTick True [CHR 0x00] [CHR 0x00] (releaseEdge 100)
         (buttonA\<lparr>pressedMillis := 0, wasPressed := True\<rparr>) =
       Inr (buttonA\<lparr>pressedMillis := 0, wasPressed := False\<rparr>, [])"
proof -
  have a: "actionTrigger buttonA = action_PRESS"
    by (simp add: buttonA_eq newOSCWidget_def)
  have e: "emitsAction (pressEdge 0) buttonA"
    by (simp add: emitsAction_def pollButton_def pressEdge_def buttonA_eq newOSCWidget_def
        action_PRESS_def action_NOTHING_def)
  have p: "fst (pollButton (pressEdge 0) buttonA) = buttonA\<lparr>pressedMillis := 0, wasPressed := True\<rparr>"
    by (simp add: pollButton_def pressEdge_def)
  have d: "dispatch True [CHR 0x00] [CHR 0x00] (buttonA\<lparr>pressedMillis := 0, wasPressed := True\<rparr>) =
       Inr (buttonA\<lparr>pressedMillis := 0, wasPressed := True\<rparr>,
            [SendOSC ''/load'' [OString ''snippet'', OInt 13],
             SendSysEx (CHR 0xF0 # ''/load snippet'' @ [CHR 0xF7]),
             SerialPrint ''Button A''])"
    by (subst dispatch_snippet) (simp_all add: buttonA_eq newOSCWidget_def)
  have 1: "widgetTick True [CHR 0x00] [CHR 0x00] (pressEdge 0) buttonA =
       Inr (buttonA\<lparr>pressedMillis := 0, wasPressed := True\<rparr>,
            [SendOSC ''/load'' [OString ''snippet'', OInt 13],
             SendSysEx (CHR 0xF0 # ''/load snippet'' @ [CHR 0xF7]),
             SerialPrint ''Button A''])"
    by (simp add: widgetTick_def e p d)
  have 2: "widgetTick True [CHR 0x00] [CHR 0x00] (releaseEdge 100)
         (buttonA\<lparr>pressedMillis := 0, wasPressed := True\<rparr>) =
       Inr (buttonA\<lparr>pressedMillis := 0, wasPressed := False\<rparr>, [])"
    by (simp add: widgetTick_def emitsAction_def pollButton_def releaseEdge_def)
  from a 1 2 show ?thesis by blast
qed

lemma release_edge_silent:
  "widgetTick xr aS aF (releaseEdge tr) v = Inr (v\<lparr>wasPressed := False\<rparr>, [])"
  by (simp add: widgetTick_def emitsAction_def pollButton_def releaseEdge_def)

lemma runTicks_append:
  "runTicks xr aS aF (xs @ ys) w =
     (case runTicks xr aS aF xs w of
        Inl f \<Rightarrow> Inl f
      | Inr (w1, evs1) \<Rightarrow>
          (case runTicks xr aS aF ys w1 of
             Inl f \<Rightarrow> Inl f
           | Inr (w2, evs2) \<Rightarrow> Inr (w2, evs1 @ evs2)))"
  by (induction xs arbitrary: w) (auto split: sum.splits prod.splits)

lemma dispatchCount_append: "dispatchCount (xs @ ys) = dispatchCount xs + dispatchCount ys"
  by (simp add: dispatchCount_def)

text \<open>One poll with no toggle, for a Long-press widget whose press started at \<open>t0\<close>.\<close>

lemma held_tick_long:
  assumes trig: "actionTrigger w = action_LONG_PRESS"
    and tick: "widgetTick xr aS aF (heldPoll t) w = Inr (w1, evs1)"
  shows "actionTrigger w1 = action_LONG_PRESS \<and> pressedMillis w1 = pressedMillis w
       \<and> wasPressed w1 = (wasPressed w \<and> \<not> t - pressedMillis w > LONG_PRESS_DURATION)
       \<and> dispatchCount evs1 =
           (if wasPressed w \<and> t - pressedMillis w > LONG_PRESS_DURATION then 1 else 0)"
proof (cases "wasPressed w \<and> t - pressedMillis w > LONG_PRESS_DURATION")
  case True
  then have p: "pollButton (heldPoll t) w = (w\<lparr>wasPressed := False\<rparr>, action_LONG_PRESS)"
    by (simp add: pollButton_def heldPoll_def)
  with trig have "emitsAction (heldPoll t) w"
    by (simp add: emitsAction_def action_LONG_PRESS_def action_NOTHING_def)
  with tick p have "dispatch xr aS aF (w\<lparr>wasPressed := False\<rparr>) = Inr (w1, evs1)"
    by (simp add: widgetTick_def)
  from dispatch_keeps_timing [OF this] trig True show ?thesis by simp
next
  case False
  then have p: "pollButton (heldPoll t) w = (w, action_NOTHING)"
    by (auto simp: pollButton_def heldPoll_def)
  then have "\<not> emitsAction (heldPoll t) w"
    by (simp add: emitsAction_def)
  with tick p have "w1 = w" "evs1 = []"
    by (simp_all add: widgetTick_def)
  with trig False show ?thesis by (auto simp: dispatchCount_def)
qed

text \<open>Within the caller-side bound such a poll returns, and the bound still holds after it.\<close>

lemma held_tick_returns:
  assumes fits: "dispatchFits aS aF w"
  shows "\<exists>w1 evs1. widgetTick xr aS aF (heldPoll t) w = Inr (w1, evs1) \<and> dispatchFits aS aF w1"
proof (cases "emitsAction (heldPoll t) w")
  case True
  have f: "dispatchFits aS aF (fst (pollButton (heldPoll t) w))"
    using fits by (simp add: pollButton_def heldPoll_def)
  from dispatch_returns [OF f] obtain w1 evs1 where
    d: "dispatch xr aS aF (fst (pollButton (heldPoll t) w)) = Inr (w1, evs1)" by blast
  from dispatchFits_after [OF f d] have "dispatchFits aS aF w1" .
  with d True show ?thesis by (simp add: widgetTick_def)
next
  case False
  have "dispatchFits aS aF (fst (pollButton (heldPoll t) w))"
    using fits by (simp add: pollButton_def heldPoll_def)
  with False show ?thesis by (simp add: widgetTick_def)
qed

lemma held_run_long:
  assumes "actionTrigger w = action_LONG_PRESS" and "dispatchFits aS aF w"
  shows "\<exists>w' evs. runTicks xr aS aF (map heldPoll ts) w = Inr (w', evs)
         \<and> dispatchCount evs =
             (if wasPressed w \<and> (\<exists>t\<in>set ts. t - pressedMillis w > LONG_PRESS_DURATION)
              then 1 else 0)"
  using assms
proof (induction ts arbitrary: w)
  case Nil
  then show ?case by (simp add: dispatchCount_def)
next
  case (Cons t ts)
  from held_tick_returns [OF Cons.prems(2)] obtain w1 evs1 where
    t1: "widgetTick xr aS aF (heldPoll t) w = Inr (w1, evs1)" and
    f1: "dispatchFits aS aF w1"
    by blast
  note h = held_tick_long [OF Cons.prems(1) t1]
  from h have trig1: "actionTrigger w1 = action_LONG_PRESS" by simp
  from Cons.IH [OF trig1 f1] obtain w' evs2 where
    r2: "runTicks xr aS aF (map heldPoll ts) w1 = Inr (w', evs2)" and
    c2: "dispatchCount evs2 =
           (if wasPressed w1 \<and> (\<exists>t\<in>set ts. t - pressedMillis w1 > LONG_PRESS_DURATION)
            then 1 else 0)"
    by blast
  from t1 r2 have r: "runTicks xr aS aF (map heldPoll (t # ts)) w = Inr (w', evs1 @ evs2)"
    by simp
  have "dispatchCount (evs1 @ evs2) =
          (if wasPressed w \<and> (\<exists>t\<in>set (t # ts). t - pressedMillis w > LONG_PRESS_DURATION)
           then 1 else 0)"
  proof (cases "wasPressed w \<and> t - pressedMillis w > LONG_PRESS_DURATION")
    case True
    with h have "\<not> wasPressed w1" "dispatchCount evs1 = 1" by simp_all
    with c2 True show ?thesis by (simp add: dispatchCount_append)
  next
    case False
    with h have "wasPressed w1 = wasPressed w" "pressedMillis w1 = pressedMillis w"
      "dispatchCount evs1 = 0" by auto
    with c2 False show ?thesis by (auto simp: dispatchCount_append)
  qed
  with r show ?case by blast
qed

text \<open>The Actions emitted over the polls while held and the release edge.\<close>

lemma held_emitted_long:
  assumes "actionTrigger w = action_LONG_PRESS"
  shows "emittedActions (map heldPoll ts @ [releaseEdge tr]) w =
           (if wasPressed w \<and> (\<exists>t\<in>set ts. t - pressedMillis w > LONG_PRESS_DURATION)
            then 1 else 0)"
  using assms
proof (induction ts arbitrary: w)
  case Nil
  then show ?case
    by (simp add: emitsAction_def pollButton_def releaseEdge_def)
next
  case (Cons t ts)
  show ?case
  proof (cases "wasPressed w \<and> t - pressedMillis w > LONG_PRESS_DURATION")
    case True
    then have p: "pollButton (heldPoll t) w = (w\<lparr>wasPressed := False\<rparr>, action_LONG_PRESS)"
      by (simp add: pollButton_def heldPoll_def)
    with Cons.prems have e: "emitsAction (heldPoll t) w"
      by (simp add: emitsAction_def action_LONG_PRESS_def action_NOTHING_def)
    from Cons.prems have "actionTrigger (w\<lparr>wasPressed := False\<rparr>) = action_LONG_PRESS" by simp
    from Cons.IH [OF this] p e True show ?thesis by simp
  next
    case False
    then have p: "pollButton (heldPoll t) w = (w, action_NOTHING)"
      by (auto simp: pollButton_def heldPoll_def)
    then have e: "\<not> emitsAction (heldPoll t) w"
      by (simp add: emitsAction_def)
    from Cons.IH [OF Cons.prems] p e False show ?thesis by auto
  qed
qed

text \<open>
  C2. For every widget whose trigger kind is Long-press, over one physical hold (the
  poll that finds the press edge at \<open>t0\<close>, the polls at the times \<open>ts\<close> while the
  button is held, the poll that finds the release edge at \<open>tr\<close>) the Long-press Action
  is emitted exactly once if a poll during the hold sees more than the threshold elapsed
  since the press, and not at all otherwise: once it has fired, \<open>wasPressed\<close> is
  cleared and later polls of the same hold do not fire again. Within the caller-side bound
  the loop returns from the whole hold and has dispatched exactly that many times. The
  poll that finds a release edge emits no Action and sends nothing, for any widget in any
  state.
\<close>

theorem long_press_once_per_hold:
  assumes trig: "actionTrigger w = action_LONG_PRESS"
  shows "emittedActions (pressEdge t0 # map heldPoll ts @ [releaseEdge tr]) w =
           (if \<exists>t\<in>set ts. t - t0 > LONG_PRESS_DURATION then 1 else 0)
       \<and> (dispatchFits aS aF w \<longrightarrow>
            (\<exists>w' evs.
               runTicks xr aS aF (pressEdge t0 # map heldPoll ts @ [releaseEdge tr]) w = Inr (w', evs)
             \<and> dispatchCount evs = (if \<exists>t\<in>set ts. t - t0 > LONG_PRESS_DURATION then 1 else 0)))
       \<and> (\<forall>v. \<not> emitsAction (releaseEdge tr) v
              \<and> widgetTick xr aS aF (releaseEdge tr) v = Inr (v\<lparr>wasPressed := False\<rparr>, []))"
proof -
  define w0 where "w0 = w\<lparr>pressedMillis := t0, wasPressed := True\<rparr>"
  have trig0: "actionTrigger w0 = action_LONG_PRESS" using trig by (simp add: w0_def)
  have pb: "pollButton (pressEdge t0) w = (w0, action_PRESS)"
    by (simp add: pollButton_def pressEdge_def w0_def)
  with trig have ne: "\<not> emitsAction (pressEdge t0) w"
    by (simp add: emitsAction_def w0_def action_PRESS_def action_LONG_PRESS_def)
  from held_emitted_long [OF trig0, of ts tr] pb ne
  have 1: "emittedActions (pressEdge t0 # map heldPoll ts @ [releaseEdge tr]) w =
           (if \<exists>t\<in>set ts. t - t0 > LONG_PRESS_DURATION then 1 else 0)"
    by (simp add: w0_def)
  have 2: "dispatchFits aS aF w \<longrightarrow>
            (\<exists>w' evs.
               runTicks xr aS aF (pressEdge t0 # map heldPoll ts @ [releaseEdge tr]) w = Inr (w', evs)
             \<and> dispatchCount evs = (if \<exists>t\<in>set ts. t - t0 > LONG_PRESS_DURATION then 1 else 0))"
  proof
    assume fits: "dispatchFits aS aF w"
    then have fits0: "dispatchFits aS aF w0" by (simp add: w0_def)
    from pb ne have p: "widgetTick xr aS aF (pressEdge t0) w = Inr (w0, [])"
      by (simp add: widgetTick_def)
    from held_run_long [OF trig0 fits0, of xr ts] obtain w1 evs1 where
      r1: "runTicks xr aS aF (map heldPoll ts) w0 = Inr (w1, evs1)" and
      c1: "dispatchCount evs1 = (if \<exists>t\<in>set ts. t - t0 > LONG_PRESS_DURATION then 1 else 0)"
      by (auto simp: w0_def)
    have r2: "runTicks xr aS aF [releaseEdge tr] w1 = Inr (w1\<lparr>wasPressed := False\<rparr>, [])"
      by (simp add: release_edge_silent)
    from p r1 r2
    have "runTicks xr aS aF (pressEdge t0 # map heldPoll ts @ [releaseEdge tr]) w =
            Inr (w1\<lparr>wasPressed := False\<rparr>, evs1)"
      by (simp add: runTicks_append)
    with c1 show "\<exists>w' evs.
               runTicks xr aS aF (pressEdge t0 # map heldPoll ts @ [releaseEdge tr]) w = Inr (w', evs)
             \<and> dispatchCount evs = (if \<exists>t\<in>set ts. t - t0 > LONG_PRESS_DURATION then 1 else 0)"
      by blast
  qed
  have 3: "\<forall>v. \<not> emitsAction (releaseEdge tr) v
              \<and> widgetTick xr aS aF (releaseEdge tr) v = Inr (v\<lparr>wasPressed := False\<rparr>, [])"
    by (simp add: release_edge_silent) (simp add: emitsAction_def pollButton_def releaseEdge_def)
  from 1 2 3 show ?thesis by blast
qed

theorem long_press_once_per_hold_witness:
  "actionTrigger bttnA_long = action_LONG_PRESS
   \<and> dispatchFits [CHR 0x00] [CHR 0x00] bttnA_long
   \<and> emittedActions (pressEdge 0 # map heldPoll [1000, 3001, 3500] @ [releaseEdge 4000]) bttnA_long = 1
   \<and> emittedActions (pressEdge 0 # map heldPoll [1000, 2000] @ [releaseEdge 2500]) bttnA_long = 0
   \<and> (\<exists>w' evs.
         runTicks False [CHR 0x00] [CHR 0x00]
            (pressEdge 0 # map heldPoll [1000, 3001, 3500] @ [releaseEdge 4000]) bttnA_long = Inr (w', evs)
       \<and> dispatchCount evs = 1)"
proof -
  have a: "actionTrigger bttnA_long = action_LONG_PRESS"
    by (simp add: bttnA_long_eq newOSCWidget_def)
  note th1 = long_press_once_per_hold [OF a, of 0 "[1000, 3001, 3500]" 4000
      "[CHR 0x00]" "[CHR 0x00]" False]
  note th2 = long_press_once_per_hold [OF a, of 0 "[1000, 2000]" 2500
      "[CHR 0x00]" "[CHR 0x00]" False]
  have c1: "\<exists>t\<in>set [1000, 3001, 3500 :: 32 word]. t - 0 > LONG_PRESS_DURATION"
    by (simp add: LONG_PRESS_DURATION_def)
  have c2: "\<not> (\<exists>t\<in>set [1000, 2000 :: 32 word]. t - 0 > LONG_PRESS_DURATION)"
    by (simp add: LONG_PRESS_DURATION_def)
  from th1 [THEN conjunct1] c1
  have 1: "emittedActions (pressEdge 0 # map heldPoll [1000, 3001, 3500] @ [releaseEdge 4000]) bttnA_long = 1"
    by (simp only: if_True)
  from th2 [THEN conjunct1] c2
  have 2: "emittedActions (pressEdge 0 # map heldPoll [1000, 2000] @ [releaseEdge 2500]) bttnA_long = 0"
    by (simp only: if_False)
  from th1 [THEN conjunct2, THEN conjunct1, rule_format, OF dispatchFits_bttnA_long] c1
  have 3: "\<exists>w' evs.
         runTicks False [CHR 0x00] [CHR 0x00]
            (pressEdge 0 # map heldPoll [1000, 3001, 3500] @ [releaseEdge 4000]) bttnA_long = Inr (w', evs)
       \<and> dispatchCount evs = 1"
    by (simp only: if_True)
  from a dispatchFits_bttnA_long 1 2 3 show ?thesis by blast
qed

section \<open>Mode switch and refresh\<close>

text \<open>
  C3 (as amended). When the mode button toggles to released (one-way to two-way),
  \<^verbatim>\<open>do_xRemote\<close> and \<^verbatim>\<open>do_Refresh\<close> are set and the UDP (inbound) task is
  resumed; no poll of the mode button suspends or resumes the poke (poll) task. The next
  round of the poke task with the link up then sends the \<open>/xremote\<close> renewal,
  clears \<^verbatim>\<open>do_Refresh\<close>, waits the settle delay of 20 ms and only then sends
  one address-only message per Toggle widget, in configuration order, and none for any
  other widget.
\<close>

theorem mode_switch_then_refresh:
  "pollModeButton True True g =
     (g\<lparr>do_xRemote := True, do_Refresh := True, udpLoopSuspended := False\<rparr>,
      [SetRefresh True, TaskResume UDPLoop, SerialPrint ''do_xRemote: ''])
   \<and> pokeLoopSuspended (fst (pollModeButton modeToggled modeReleased g)) = pokeLoopSuspended g
   \<and> pokeRound True ws (fst (pollModeButton True True g), doneLedOff) =
       ((g\<lparr>do_xRemote := True, do_Refresh := False, udpLoopSuspended := False\<rparr>, False),
        [SerialPrint ''/xremote'', SendOSC ''/xremote'' [], SetRefresh False, Delay 20] @
        map (\<lambda>w. SendOSC (oscAddress w) []) (filter isOscToggle ws) @
        [Delay 9000, Delay 10])"
  by (simp add: pollModeButton_def pokeRound_def)

text \<open>
  C3 as stated fails on the configured widgets: the switch into two-way mode resumes the
  UDP task and not the poke task, and in the round that follows the write that clears
  \<^verbatim>\<open>do_Refresh\<close> comes before the two probes, not after them: up to that write only
  the \<open>/xremote\<close> renewal has been sent.
\<close>

theorem probes_before_clear_counterexample:
  "snd (pollModeButton True True oneWayLinked) =
     [SetRefresh True, TaskResume UDPLoop, SerialPrint ''do_xRemote: '']
   \<and> TaskResume PokeOSCLoop \<notin> set (snd (pollModeButton True True oneWayLinked))
   \<and> snd (pokeRound True myWidgets (fst (pollModeButton True True oneWayLinked), False)) =
       [SerialPrint ''/xremote'', SendOSC ''/xremote'' [], SetRefresh False, Delay 20,
        SendOSC ''/dca/5/on'' [], SendOSC ''/config/mute/6'' [], Delay 9000, Delay 10]
   \<and> takeWhile (\<lambda>e. e \<noteq> SetRefresh False)
        (snd (pokeRound True myWidgets (fst (pollModeButton True True oneWayLinked), False))) =
       [SerialPrint ''/xremote'', SendOSC ''/xremote'' []]"
  by (simp add: pollModeButton_def pokeRound_def oneWayLinked_def myWidgets_def newOSCWidget_def)

section \<open>Inbound reconciliation\<close>

text \<open>
  C5. For every inbound message without parse error whose address matches a Toggle
  widget and whose first argument is an integer \<open>S\<close>, the widget's state becomes
  \<open>S\<close> and its indicator pin is written once, to the active level exactly when
  \<open>S > 0\<close> differs from the widget's reversed-polarity flag: with normal polarity
  active iff \<open>S > 0\<close>, with reversed polarity active iff \<open>S \<le> 0\<close>. This holds for
  the widget on its own and for the widget at any position of the configured list.
\<close>

theorem inbound_int_sets_toggle:
  assumes m: "fullMatch (address msg) (oscAddress w)"
    and t: "isOscToggle w"
    and a: "arguments msg = OInt S # rest"
  shows "udpWidget fullMatch msg w =
           (w\<lparr>oscState := S\<rparr>,
            [SerialPrint ''MATCHES '', SerialPrint (friendlyDebugName w),
             DigitalWrite (ledPin w)
               (if (S > 0) \<noteq> isReverseLed w then LED_PIN_ON else LED_PIN_OFF)],
            1)
       \<and> (\<forall>ws i. \<not> hasError msg \<and> i < length ws \<and> ws ! i = w \<longrightarrow>
             fst (udpMessage fullMatch msg ws) ! i = w\<lparr>oscState := S\<rparr>
             \<and> DigitalWrite (ledPin w)
                 (if (S > 0) \<noteq> isReverseLed w then LED_PIN_ON else LED_PIN_OFF)
               \<in> set (snd (udpMessage fullMatch msg ws)))"
proof -
  from a have i0: "isInt 0 msg" and g0: "getInt 0 msg = S"
    by (simp_all add: isInt_def getInt_def)
  from m t i0 g0 have u: "udpWidget fullMatch msg w =
           (w\<lparr>oscState := S\<rparr>,
            [SerialPrint ''MATCHES '', SerialPrint (friendlyDebugName w),
             DigitalWrite (ledPin w)
               (if (S > 0) \<noteq> isReverseLed w then LED_PIN_ON else LED_PIN_OFF)],
            1)"
    by (simp add: udpWidget_def Let_def)
  have l: "\<forall>ws i. \<not> hasError msg \<and> i < length ws \<and> ws ! i = w \<longrightarrow>
             fst (udpMessage fullMatch msg ws) ! i = w\<lparr>oscState := S\<rparr>
             \<and> DigitalWrite (ledPin w)
                 (if (S > 0) \<noteq> isReverseLed w then LED_PIN_ON else LED_PIN_OFF)
               \<in> set (snd (udpMessage fullMatch msg ws))"
  proof (intro allI impI)
    fix ws :: "OSCWidget list" and i
    assume h: "\<not> hasError msg \<and> i < length ws \<and> ws ! i = w"
    then have win: "w \<in> set ws" by auto
    from h have 1: "fst (udpMessage fullMatch msg ws) ! i = w\<lparr>oscState := S\<rparr>"
      by (simp add: udpMessage_def udpWidgets_map u)
    have "DigitalWrite (ledPin w)
             (if (S > 0) \<noteq> isReverseLed w then LED_PIN_ON else LED_PIN_OFF)
           \<in> set (fst (snd (udpWidget fullMatch msg w)))"
      by (simp add: u)
    with win have "DigitalWrite (ledPin w)
             (if (S > 0) \<noteq> isReverseLed w then LED_PIN_ON else LED_PIN_OFF)
           \<in> set (concat (map (\<lambda>w. fst (snd (udpWidget fullMatch msg w))) ws))"
      by auto
    with h have 2: "DigitalWrite (ledPin w)
                 (if (S > 0) \<noteq> isReverseLed w then LED_PIN_ON else LED_PIN_OFF)
               \<in> set (snd (udpMessage fullMatch msg ws))"
      by (simp add: udpMessage_def udpWidgets_map)
    from 1 2 show "fst (udpMessage fullMatch msg ws) ! i = w\<lparr>oscState := S\<rparr>
             \<and> DigitalWrite (ledPin w)
                 (if (S > 0) \<noteq> isReverseLed w then LED_PIN_ON else LED_PIN_OFF)
               \<in> set (snd (udpMessage fullMatch msg ws))"
      by blast
  qed
  from u l show ?thesis by blast
qed

theorem inbound_int_sets_toggle_witness:
  "address \<lparr>hasError = False, address = ''/dca/5/on'', arguments = [OInt 1]\<rparr> = oscAddress buttonE
   \<and> isOscToggle buttonE \<and> isReverseLed buttonE
   \<and> myWidgets ! 5 = buttonE
   \<and> udpWidget (=) \<lparr>hasError = False, address = ''/dca/5/on'', arguments = [OInt 1]\<rparr> buttonE =
       (buttonE\<lparr>oscState := 1\<rparr>,
        [SerialPrint ''MATCHES '', SerialPrint ''Button E'', DigitalWrite 4 HIGH], 1)
   \<and> fst (udpMessage (=) \<lparr>hasError = False, address = ''/dca/5/on'', arguments = [OInt 1]\<rparr>
            myWidgets) ! 5 = buttonE\<lparr>oscState := 1\<rparr>
   \<and> DigitalWrite 4 HIGH
       \<in> set (snd (udpMessage (=) \<lparr>hasError = False, address = ''/dca/5/on'', arguments = [OInt 1]\<rparr>
                     myWidgets))"
proof -
  let ?msg = "\<lparr>hasError = False, address = ''/dca/5/on'', arguments = [OInt 1]\<rparr>"
  have m: "address ?msg = oscAddress buttonE"
    and t: "isOscToggle buttonE" and r: "isReverseLed buttonE"
    and n: "friendlyDebugName buttonE = ''Button E''" and p: "ledPin buttonE = 4"
    by (simp_all add: buttonE_eq newOSCWidget_def)
  have a: "arguments ?msg = OInt 1 # []" by simp
  have e: "\<not> hasError ?msg" by simp
  have i: "(5::nat) < length myWidgets" by (simp add: myWidgets_def)
  have b: "myWidgets ! 5 = buttonE" by (simp add: buttonE_def)
  note th = inbound_int_sets_toggle [where fullMatch = "(=)", OF m t a]
  from th r n p have 1: "udpWidget (=) ?msg buttonE =
       (buttonE\<lparr>oscState := 1\<rparr>,
        [SerialPrint ''MATCHES '', SerialPrint ''Button E'', DigitalWrite 4 HIGH], 1)"
    by (simp add: LED_PIN_OFF_def)
  from th e i b have "fst (udpMessage (=) ?msg myWidgets) ! 5 = buttonE\<lparr>oscState := 1\<rparr>
     \<and> DigitalWrite (ledPin buttonE)
         (if ((1::int) > 0) \<noteq> isReverseLed buttonE then LED_PIN_ON else LED_PIN_OFF)
        \<in> set (snd (udpMessage (=) ?msg myWidgets))"
    by blast
  with r p have 2: "fst (udpMessage (=) ?msg myWidgets) ! 5 = buttonE\<lparr>oscState := 1\<rparr>
     \<and> DigitalWrite 4 HIGH \<in> set (snd (udpMessage (=) ?msg myWidgets))"
    by (simp add: LED_PIN_OFF_def)
  from m t r b 1 2 show ?thesis by blast
qed

text \<open>
  C8. For every inbound message without parse error whose address matches none of the
  configured widgets, the widgets are left exactly as they were and the only thing done
  is the line \<open>NO MATCH\<close> on the debug console: no pin is written, no flash is
  started, nothing is sent, and the task goes on to its next round.
\<close>

theorem unmatched_message_dropped:
  assumes e: "\<not> hasError msg"
    and n: "\<forall>w\<in>set ws. \<not> fullMatch (address msg) (oscAddress w)"
  shows "udpMessage fullMatch msg ws = (ws, [SerialPrint ''NO MATCH''])
       \<and> (do_xRemote g \<longrightarrow>
            udpRound fullMatch True (Some msg) (g, ws) =
              ((g, ws), [SerialPrint ''NO MATCH'', Delay 10]))"
proof -
  from n have u: "\<forall>w\<in>set ws. udpWidget fullMatch msg w = (w, [], 0)"
    by (simp add: udpWidget_def)
  then have 1: "map (\<lambda>w. fst (udpWidget fullMatch msg w)) ws = ws"
    by (simp add: map_idI)
  from u have 2: "concat (map (\<lambda>w. fst (snd (udpWidget fullMatch msg w))) ws) = []"
    by simp
  from u have 3: "sum_list (map (\<lambda>w. snd (snd (udpWidget fullMatch msg w))) ws) = 0"
    by simp
  from e 1 2 3 have m: "udpMessage fullMatch msg ws = (ws, [SerialPrint ''NO MATCH''])"
    by (simp add: udpMessage_def udpWidgets_map)
  then show ?thesis by (simp add: udpRound_def)
qed

theorem unmatched_message_dropped_witness:
  "\<not> hasError \<lparr>hasError = False, address = ''/ch/01/mix/on'', arguments = [OInt 1]\<rparr>
   \<and> list_all (\<lambda>w. ''/ch/01/mix/on'' \<noteq> oscAddress w) myWidgets
   \<and> udpMessage (=) \<lparr>hasError = False, address = ''/ch/01/mix/on'', arguments = [OInt 1]\<rparr> myWidgets =
       (myWidgets, [SerialPrint ''NO MATCH''])"
proof -
  let ?msg = "\<lparr>hasError = False, address = ''/ch/01/mix/on'', arguments = [OInt 1]\<rparr>"
  have e: "\<not> hasError ?msg" by simp
  have l: "list_all (\<lambda>w. ''/ch/01/mix/on'' \<noteq> oscAddress w) myWidgets"
    by (simp add: myWidgets_def newOSCWidget_def)
  then have n: "\<forall>w\<in>set myWidgets. \<not> (address ?msg = oscAddress w)"
    by (simp add: list_all_iff)
  from unmatched_message_dropped [where fullMatch = "(=)", OF e n]
  have "udpMessage (=) ?msg myWidgets = (myWidgets, [SerialPrint ''NO MATCH''])"
    by blast
  with e l show ?thesis by blast
qed

text \<open>
  C10 (as amended). For every inbound message whose address matches a widget and whose
  first argument is an integer while the widget is not of Toggle kind (Fire or Fader), or
  whose first argument is missing or is neither an integer, a float nor a string, the
  widget is left unchanged, no pin is written and no flash is started: the match is
  counted and logged and nothing else is done. A first argument that is a float or a
  string starts a flash on the widget's indicator pin and leaves the widget unchanged,
  whatever the widget's kind.
\<close>

theorem inbound_mismatch_falls_through:
  assumes m: "fullMatch (address msg) (oscAddress w)"
  shows "((isInt 0 msg \<and> \<not> isOscToggle w)
          \<or> (\<not> isInt 0 msg \<and> \<not> isFloat 0 msg \<and> \<not> isString 0 msg) \<longrightarrow>
            udpWidget fullMatch msg w =
              (w, [SerialPrint ''MATCHES '', SerialPrint (friendlyDebugName w)], 1))
       \<and> (isFloat 0 msg \<or> isString 0 msg \<longrightarrow>
            fst (udpWidget fullMatch msg w) = w
            \<and> StartFlash (ledPin w) \<in> set (fst (snd (udpWidget fullMatch msg w)))
            \<and> snd (snd (udpWidget fullMatch msg w)) = 1)"
proof -
  have x: "isInt 0 msg \<Longrightarrow> \<not> isFloat 0 msg \<and> \<not> isString 0 msg"
    by (auto simp: isInt_def isFloat_def isString_def split: oscArg.splits)
  have y: "isFloat 0 msg \<or> isString 0 msg \<Longrightarrow> \<not> isInt 0 msg"
    by (auto simp: isInt_def isFloat_def isString_def split: oscArg.splits)
  from m x have 1: "(isInt 0 msg \<and> \<not> isOscToggle w)
          \<or> (\<not> isInt 0 msg \<and> \<not> isFloat 0 msg \<and> \<not> isString 0 msg) \<longrightarrow>
            udpWidget fullMatch msg w =
              (w, [SerialPrint ''MATCHES '', SerialPrint (friendlyDebugName w)], 1)"
    by (auto simp: udpWidget_def)
  from m y have 2: "isFloat 0 msg \<or> isString 0 msg \<longrightarrow>
            fst (udpWidget fullMatch msg w) = w
            \<and> StartFlash (ledPin w) \<in> set (fst (snd (udpWidget fullMatch msg w)))
            \<and> snd (snd (udpWidget fullMatch msg w)) = 1"
    by (auto simp: udpWidget_def)
  from 1 2 show ?thesis by blast
qed

theorem inbound_mismatch_falls_through_witness:
  "address \<lparr>hasError = False, address = ''/load'', arguments = [OInt 13]\<rparr> = oscAddress buttonA
   \<and> isInt 0 \<lparr>hasError = False, address = ''/load'', arguments = [OInt 13]\<rparr>
   \<and> \<not> isOscToggle buttonA
   \<and> udpWidget (=) \<lparr>hasError = False, address = ''/load'', arguments = [OInt 13]\<rparr> buttonA =
       (buttonA, [SerialPrint ''MATCHES '', SerialPrint ''Button A''], 1)"
proof -
  let ?msg = "\<lparr>hasError = False, address = ''/load'', arguments = [OInt 13]\<rparr>"
  have m: "address ?msg = oscAddress buttonA" and t: "\<not> isOscToggle buttonA"
    and n: "friendlyDebugName buttonA = ''Button A''"
    by (simp_all add: buttonA_eq newOSCWidget_def)
  have i: "isInt 0 ?msg" by (simp add: isInt_def)
  from inbound_mismatch_falls_through [where fullMatch = "(=)", OF m] i t n
  have "udpWidget (=) ?msg buttonA =
       (buttonA, [SerialPrint ''MATCHES '', SerialPrint ''Button A''], 1)"
    by simp
  with m i t show ?thesis by blast
qed

text \<open>
  C10 as stated fails: a message to \<open>/dca/5/on\<close> whose first argument is a float
  matches Button E, a Toggle widget that a float does not fit, and a flash is started on
  the widget's indicator pin 4.
\<close>

theorem float_to_toggle_flashes_counterexample:
  "widgetKind buttonE = Toggle
   \<and> \<not> argFitsKind (OFloat (1/2)) (widgetKind buttonE)
   \<and> udpWidget (=) \<lparr>hasError = False, address = ''/dca/5/on'', arguments = [OFloat (1/2)]\<rparr> buttonE =
       (buttonE,
        [SerialPrint ''MATCHES '', SerialPrint ''Button E'', SerialPrint '' FLOAT: '', StartFlash 4],
        1)"
  by (simp add: buttonE_eq newOSCWidget_def widgetKind_def udpWidget_def isInt_def isFloat_def)

end
